theory Spec2Isabelle
  imports Complex_Main "HOL-Library.Log_Nat"
begin

section \<open>Python values used by \<^verbatim>\<open>backend/core/schema.py\<close>\<close>

subsection \<open>Exceptions\<close>

text \<open>
  The four Django models the schema imports.  Each has its own \<^verbatim>\<open>DoesNotExist\<close> and
  \<^verbatim>\<open>MultipleObjectsReturned\<close> class, so the exception carries the model it belongs to:
  \<^verbatim>\<open>except Organization.DoesNotExist\<close> does not catch \<^verbatim>\<open>Task.DoesNotExist\<close>.
\<close>

datatype model = Organization | Project | Task | TaskComment

datatype error =
    DoesNotExist model
  | MultipleObjectsReturned model
  | ValueError
  | OverflowError
  | ZeroDivisionError
  | Exception string

subsection \<open>\<^verbatim>\<open>int(str)\<close>: how Django coerces a GraphQL ID to an integer key\<close>

text \<open>
  A \<^verbatim>\<open>graphene.ID\<close> argument reaches the resolver as a Python \<^verbatim>\<open>str\<close> (or \<^verbatim>\<open>None\<close> when it
  is optional and absent).  Django compares it with an integer column through
  \<^verbatim>\<open>int(value)\<close>.  A text is a sequence of code points below 256, one \<open>char\<close> each.  On
  such a text \<^verbatim>\<open>int\<close> drops surrounding whitespace (the six ASCII whitespace characters,
  U+0085 and U+00A0), allows one sign, and then reads decimal digits, where single
  underscores may separate digits.  A text with more than 4300 digits is refused (the
  interpreter's default limit for this conversion), as is every other text; both raise
  \<^verbatim>\<open>ValueError\<close>.
\<close>

definition py_isspace :: "char \<Rightarrow> bool" where
  "py_isspace c =
     (c \<in> set [CHR 0x20, CHR 0x09, CHR 0x0A, CHR 0x0B, CHR 0x0C, CHR 0x0D, CHR 0x85, CHR 0xA0])"

definition digit_val :: "char \<Rightarrow> nat option" where
  "digit_val c =
     (let k = of_char c :: nat in if 48 \<le> k \<and> k \<le> 57 then Some (k - 48) else None)"

fun parse_digits :: "nat \<Rightarrow> string \<Rightarrow> nat option" where
  "parse_digits acc [] = Some acc"
| "parse_digits acc [c] =
     (case digit_val c of None \<Rightarrow> None | Some v \<Rightarrow> Some (acc * 10 + v))"
| "parse_digits acc (c # d # ds) =
     (if c = CHR ''_''
      then (case digit_val d of None \<Rightarrow> None | Some v \<Rightarrow> parse_digits (acc * 10 + v) ds)
      else (case digit_val c of None \<Rightarrow> None | Some v \<Rightarrow> parse_digits (acc * 10 + v) (d # ds)))"

definition parse_unsigned :: "string \<Rightarrow> nat option" where
  "parse_unsigned s =
     (case s of
        [] \<Rightarrow> None
      | c # cs \<Rightarrow> (case digit_val c of None \<Rightarrow> None | Some v \<Rightarrow> parse_digits v cs))"

definition py_strip :: "string \<Rightarrow> string" where
  "py_strip s = rev (dropWhile py_isspace (rev (dropWhile py_isspace s)))"

definition int_max_str_digits :: nat where
  "int_max_str_digits = 4300"

definition py_int :: "string \<Rightarrow> int option" where
  "py_int s =
     (if int_max_str_digits < length (filter (\<lambda>c. digit_val c \<noteq> None) (py_strip s)) then None
      else case py_strip s of
             [] \<Rightarrow> None
           | c # cs \<Rightarrow>
               if c = CHR ''-'' then map_option (\<lambda>n. - int n) (parse_unsigned cs)
               else if c = CHR ''+'' then map_option int (parse_unsigned cs)
               else map_option int (parse_unsigned (c # cs)))"

text \<open>Python truthiness of an optional string argument: \<^verbatim>\<open>None\<close> and \<^verbatim>\<open>""\<close> are false.\<close>

definition truthy :: "string option \<Rightarrow> bool" where
  "truthy a = (case a of None \<Rightarrow> False | Some s \<Rightarrow> s \<noteq> [])"

text \<open>The text of an optional argument (read only where the argument is truthy).\<close>

definition arg_value :: "string option \<Rightarrow> string" where
  "arg_value a = (case a of None \<Rightarrow> [] | Some s \<Rightarrow> s)"

text \<open>
  The lookup \<^verbatim>\<open>pk=...\<close> on a model's own key raises \<^verbatim>\<open>ValueError\<close> when the text is not an
  integer.  Django's exact lookup on an integer column answers a value outside the column's
  range with the empty result, without asking the storage layer; as no stored key is
  outside, such a value simply matches no row of the table.
\<close>

definition to_pk :: "string \<Rightarrow> error + int" where
  "to_pk s = (case py_int s of None \<Rightarrow> Inl ValueError | Some n \<Rightarrow> Inr n)"

text \<open>
  The lookup \<^verbatim>\<open>project_id=...\<close> through a foreign key column has no such guard: the converted
  integer is handed to the storage layer, whose integers have 64 bits, and a value outside
  raises \<^verbatim>\<open>OverflowError\<close> when the query runs.
\<close>

definition in_key_range :: "int \<Rightarrow> bool" where
  "in_key_range n = (- (2 ^ 63) \<le> n \<and> n < 2 ^ 63)"

definition to_fk :: "string \<Rightarrow> error + int" where
  "to_fk s =
     (case py_int s of
        None \<Rightarrow> Inl ValueError
      | Some n \<Rightarrow> if in_key_range n then Inr n else Inl OverflowError)"

subsection \<open>Floats\<close>

text \<open>
  A finite Python \<^verbatim>\<open>float\<close> is an IEEE 754 binary64 number; it is represented by its exact
  rational value.  Every arithmetic result is the exact result rounded to the nearest
  binary64 number, ties to the even significand.  All values that occur below lie in
  \<open>[0, 100]\<close>, far from the overflow threshold, so infinities and NaN are not represented.
\<close>

type_synonym pyfloat = rat

definition round_half_even :: "rat \<Rightarrow> int" where
  "round_half_even x =
     (let f = \<lfloor>x\<rfloor>; d = x - of_int f
      in if d < 1 / 2 then f
         else if 1 / 2 < d then f + 1
         else if even f then f else f + 1)"

text \<open>The binary exponent of a positive rational: \<open>2 ^ e \<le> x < 2 ^ (e + 1)\<close>.\<close>

definition float_exponent :: "rat \<Rightarrow> int" where
  "float_exponent x =
     (case quotient_of x of (p, q) \<Rightarrow>
        let e = bitlen p - bitlen q
        in if power_int 2 e \<le> x then e else e - 1)"

text \<open>
  Rounding to binary64: 53 significant bits, so the spacing of the numbers around \<open>x\<close> is
  \<open>2 ^ (e - 52)\<close>; below the smallest normal exponent \<open>-1022\<close> the spacing stays \<open>2 ^ -1074\<close>.
\<close>

definition round_binary64 :: "rat \<Rightarrow> pyfloat" where
  "round_binary64 x =
     (if x = 0 then 0
      else let e = max (float_exponent \<bar>x\<bar>) (- 1022);
               ulp = power_int 2 (e - 52)
           in sgn x * of_int (round_half_even (\<bar>x\<bar> / ulp)) * ulp)"

text \<open>\<^verbatim>\<open>a / b\<close> on two Python ints: true division, correctly rounded.\<close>

definition py_truediv :: "int \<Rightarrow> int \<Rightarrow> error + pyfloat" where
  "py_truediv a b =
     (if b = 0 then Inl ZeroDivisionError else Inr (round_binary64 (of_int a / of_int b)))"

definition py_float_mul :: "pyfloat \<Rightarrow> pyfloat \<Rightarrow> pyfloat" where
  "py_float_mul x y = round_binary64 (x * y)"

text \<open>
  \<^verbatim>\<open>round(x, ndigits)\<close> on a float: the exact value of \<open>x\<close> is rounded half-even to
  \<open>ndigits\<close> decimals, and the decimal result is converted back to the nearest float.
\<close>

definition py_round :: "pyfloat \<Rightarrow> nat \<Rightarrow> pyfloat" where
  "py_round x ndigits =
     round_binary64 (of_int (round_half_even (x * 10 ^ ndigits)) / 10 ^ ndigits)"

section \<open>The stored data\<close>

text \<open>
  Modelled from the spec: \<^verbatim>\<open>backend/core/models.py\<close> is not part of the sources at hand.
  The rows carry the columns that \<^verbatim>\<open>schema.py\<close> reads and writes (the keyword arguments of
  the model constructors and the lookups); the spec's data model gives their meaning.
  Primary keys are the integers the storage layer assigns; a foreign key column holds
  the key of the row it points to.  Dates are kept as their ISO 8601 text.
\<close>

record organization =
  org_id :: int
  org_name :: string
  org_slug :: string
  org_contact_email :: string

record project =
  project_id :: int
  project_organization_id :: int
  project_name :: string
  project_description :: string
  project_status :: string
  project_due_date :: "string option"

record task =
  task_id :: int
  task_project_id :: int
  task_title :: string
  task_description :: string
  task_status :: string
  task_assignee_email :: string
  task_due_date :: "string option"

record task_comment =
  comment_id :: int
  comment_task_id :: int
  comment_content :: string
  comment_author_email :: string

text \<open>The four tables, each in insertion order.\<close>

record database =
  organizations :: "organization list"
  projects :: "project list"
  tasks :: "task list"
  task_comments :: "task_comment list"

text \<open>
  Modelled from the spec: the constraints the storage layer keeps.  Primary keys are
  unique in each table, the organization slug is unique (``identity (slug, unique)''),
  and every foreign key points to a stored row (``belongs to exactly one'').
\<close>

definition wf_db :: "database \<Rightarrow> bool" where
  "wf_db db =
     (distinct (map org_id (organizations db)) \<and>
      distinct (map org_slug (organizations db)) \<and>
      distinct (map project_id (projects db)) \<and>
      distinct (map task_id (tasks db)) \<and>
      distinct (map comment_id (task_comments db)) \<and>
      (\<forall>p \<in> set (projects db). project_organization_id p \<in> org_id ` set (organizations db)) \<and>
      (\<forall>t \<in> set (tasks db). task_project_id t \<in> project_id ` set (projects db)) \<and>
      (\<forall>c \<in> set (task_comments db). comment_task_id c \<in> task_id ` set (tasks db)))"

subsection \<open>Following a foreign key from a row\<close>

text \<open>\<^verbatim>\<open>project.organization\<close> and \<^verbatim>\<open>task.project\<close>: the row the foreign key points to.\<close>

definition project_organization :: "database \<Rightarrow> project \<Rightarrow> organization option" where
  "project_organization db p =
     find (\<lambda>ou. org_id ou = project_organization_id p) (organizations db)"

definition task_project :: "database \<Rightarrow> task \<Rightarrow> project option" where
  "task_project db t = find (\<lambda>p. project_id p = task_project_id t) (projects db)"

text \<open>The slug of the organization that owns a task's project.\<close>

definition task_org_slug :: "database \<Rightarrow> task \<Rightarrow> string option" where
  "task_org_slug db t =
     (case task_project db t of
        None \<Rightarrow> None
      | Some p \<Rightarrow> map_option org_slug (project_organization db p))"

subsection \<open>Query sets\<close>

text \<open>
  \<^verbatim>\<open>Model.objects.get(...)\<close>: the one matching row; \<^verbatim>\<open>DoesNotExist\<close> when there is none,
  \<^verbatim>\<open>MultipleObjectsReturned\<close> when there are several.
\<close>

definition objects_get :: "model \<Rightarrow> ('a \<Rightarrow> bool) \<Rightarrow> 'a list \<Rightarrow> error + 'a" where
  "objects_get m P rows =
     (case filter P rows of
        [] \<Rightarrow> Inl (DoesNotExist m)
      | [r] \<Rightarrow> Inr r
      | _ \<Rightarrow> Inl (MultipleObjectsReturned m))"

text \<open>
  The lookup \<^verbatim>\<open>organization__slug=s\<close> on projects joins the organization table: a project
  matches when an organization row with the project's foreign key has slug \<open>s\<close>.
\<close>

definition organization_slug_is :: "database \<Rightarrow> string \<Rightarrow> project \<Rightarrow> bool" where
  "organization_slug_is db s p =
     (\<exists>ou \<in> set (organizations db). org_id ou = project_organization_id p \<and> org_slug ou = s)"

text \<open>The lookup \<^verbatim>\<open>project__organization__slug=s\<close> on tasks joins projects and organizations.\<close>

definition project_organization_slug_is :: "database \<Rightarrow> string \<Rightarrow> task \<Rightarrow> bool" where
  "project_organization_slug_is db s t =
     (\<exists>p \<in> set (projects db). project_id p = task_project_id t \<and> organization_slug_is db s p)"

text \<open>\<^verbatim>\<open>project.tasks\<close>, the reverse relation: the tasks whose foreign key is this project.\<close>

definition project_tasks :: "database \<Rightarrow> project \<Rightarrow> task list" where
  "project_tasks db p = filter (\<lambda>t. task_project_id t = project_id p) (tasks db)"

section \<open>Object types\<close>

subsection \<open>\<^verbatim>\<open>ProjectType\<close>\<close>

definition resolve_taskCount :: "database \<Rightarrow> project \<Rightarrow> nat" where
  "resolve_taskCount db self = length (project_tasks db self)"

definition resolve_completedTasks :: "database \<Rightarrow> project \<Rightarrow> nat" where
  "resolve_completedTasks db self =
     length (filter (\<lambda>t. task_status t = ''DONE'') (project_tasks db self))"

definition resolve_completionRate :: "database \<Rightarrow> project \<Rightarrow> error + pyfloat" where
  "resolve_completionRate db self =
     (let total = length (project_tasks db self)
      in if total = 0 then Inr 0
         else let completed = length (filter (\<lambda>t. task_status t = ''DONE'') (project_tasks db self))
              in case py_truediv (int completed) (int total) of
                   Inl e \<Rightarrow> Inl e
                 | Inr q \<Rightarrow> Inr (py_round (py_float_mul q 100) 2))"

subsection \<open>\<^verbatim>\<open>ProjectStatisticsType\<close>\<close>

record ProjectStatisticsType =
  totalProjects :: nat
  totalTasks :: nat
  completedTasks :: nat
  activeTasks :: nat
  completionRate :: pyfloat

section \<open>Queries\<close>

definition resolve_organization :: "database \<Rightarrow> string \<Rightarrow> error + organization" where
  "resolve_organization db slug =
     (case objects_get Organization (\<lambda>ou. org_slug ou = slug) (organizations db) of
        Inr organization \<Rightarrow> Inr organization
      | Inl e \<Rightarrow>
          if e = DoesNotExist Organization then Inl (Exception ''Organization not found'')
          else Inl e)"

definition resolve_projects :: "database \<Rightarrow> string \<Rightarrow> project list" where
  "resolve_projects db organizationSlug =
     filter (organization_slug_is db organizationSlug) (projects db)"

definition resolve_tasks :: "database \<Rightarrow> string \<Rightarrow> string option \<Rightarrow> error + task list" where
  "resolve_tasks db organizationSlug projectId =
     (let queryset = filter (project_organization_slug_is db organizationSlug) (tasks db)
      in if truthy projectId
         then (case to_fk (arg_value projectId) of
                 Inl e \<Rightarrow> Inl e
               | Inr n \<Rightarrow> Inr (filter (\<lambda>t. task_project_id t = n) queryset))
         else Inr queryset)"

definition resolve_taskComments :: "database \<Rightarrow> string \<Rightarrow> string \<Rightarrow> error + task_comment list" where
  "resolve_taskComments db taskId organizationSlug =
     (case to_pk taskId of
        Inl e \<Rightarrow> Inl e
      | Inr n \<Rightarrow>
         (case objects_get Task
                 (\<lambda>t. task_id t = n \<and> project_organization_slug_is db organizationSlug t)
                 (tasks db) of
            Inr task \<Rightarrow> Inr (filter (\<lambda>c. comment_task_id c = task_id task) (task_comments db))
          | Inl e \<Rightarrow> if e = DoesNotExist Task then Inr [] else Inl e))"

text \<open>
  The two loops of \<^verbatim>\<open>resolve_projectStatistics\<close>: \<^verbatim>\<open>all_tasks.extend(project.tasks.all())\<close>
  for each project, and \<^verbatim>\<open>sum(1 for task in all_tasks if task.status == ...)\<close>.
\<close>

fun extend_all_tasks :: "database \<Rightarrow> task list \<Rightarrow> project list \<Rightarrow> task list" where
  "extend_all_tasks db all_tasks [] = all_tasks"
| "extend_all_tasks db all_tasks (p # ps) = extend_all_tasks db (all_tasks @ project_tasks db p) ps"

fun sum_status :: "string \<Rightarrow> nat \<Rightarrow> task list \<Rightarrow> nat" where
  "sum_status s n [] = n"
| "sum_status s n (t # ts) = sum_status s (if task_status t = s then n + 1 else n) ts"

definition resolve_projectStatistics ::
  "database \<Rightarrow> string \<Rightarrow> string option \<Rightarrow> error + ProjectStatisticsType option" where
  "resolve_projectStatistics db organizationSlug projectId =
     (case objects_get Organization (\<lambda>ou. org_slug ou = organizationSlug) (organizations db) of
        Inl e \<Rightarrow> if e = DoesNotExist Organization then Inr None else Inl e
      | Inr organization \<Rightarrow>
         (let projects0 =
                filter (\<lambda>p. project_organization_id p = org_id organization) (projects db)
          in case (if truthy projectId
                   then (case to_pk (arg_value projectId) of
                           Inl e \<Rightarrow> Inl e
                         | Inr n \<Rightarrow> Inr (filter (\<lambda>p. project_id p = n) projects0))
                   else Inr projects0) of
               Inl e \<Rightarrow> Inl e
             | Inr projs \<Rightarrow>
                (let total_projects = length projs;
                     all_tasks = extend_all_tasks db [] projs;
                     total_tasks = length all_tasks;
                     completed_tasks = sum_status ''DONE'' 0 all_tasks;
                     active_tasks = sum_status ''IN_PROGRESS'' 0 all_tasks
                 in case (if total_tasks > 0
                          then (case py_truediv (int completed_tasks) (int total_tasks) of
                                  Inl e \<Rightarrow> Inl e
                                | Inr q \<Rightarrow> Inr (py_round (py_float_mul q 100) 2))
                          else Inr 0) of
                      Inl e \<Rightarrow> Inl e
                    | Inr completion_rate \<Rightarrow>
                        Inr (Some \<lparr>totalProjects = total_projects,
                                   totalTasks = total_tasks,
                                   completedTasks = completed_tasks,
                                   activeTasks = active_tasks,
                                   completionRate = completion_rate\<rparr>))))"

section \<open>Mutations\<close>

text \<open>
  \<^verbatim>\<open>save()\<close> of a new row: the storage layer assigns the next key and appends the row.
  \<^verbatim>\<open>save()\<close> of a fetched row: the stored row with that key is overwritten.
\<close>

definition next_pk :: "int list \<Rightarrow> int" where
  "next_pk ids = fold max ids 0 + 1"

text \<open>
  \<^verbatim>\<open>CreateProject.mutate\<close>.  The arguments a request leaves out take the defaults of the
  signature: \<^verbatim>\<open>description=""\<close>, \<^verbatim>\<open>status="ACTIVE"\<close>, \<^verbatim>\<open>dueDate=None\<close>.  The function returns
  the outcome together with the database after the call.
\<close>

definition CreateProject_mutate ::
  "database \<Rightarrow> string \<Rightarrow> string \<Rightarrow> string \<Rightarrow> string \<Rightarrow> string option
     \<Rightarrow> (error + project) \<times> database" where
  "CreateProject_mutate db organizationSlug name description status dueDate =
     (case objects_get Organization (\<lambda>ou. org_slug ou = organizationSlug) (organizations db) of
        Inl e \<Rightarrow>
          (if e = DoesNotExist Organization then Inl (Exception ''Organization not found'')
           else Inl e, db)
      | Inr organization \<Rightarrow>
          (let project = \<lparr>project_id = next_pk (map project_id (projects db)),
                          project_organization_id = org_id organization,
                          project_name = name,
                          project_description = description,
                          project_status = status,
                          project_due_date = dueDate\<rparr>
           in (Inr project, db\<lparr>projects := projects db @ [project]\<rparr>)))"

text \<open>
  \<^verbatim>\<open>UpdateTask.mutate\<close>.  Every field argument defaults to \<^verbatim>\<open>None\<close>; a field is assigned only
  when its argument \<^verbatim>\<open>is not None\<close>.  The parameter \<^verbatim>\<open>id\<close> is called \<open>ident\<close> here.  The
  fetched row is changed field by field and then saved under its key.
\<close>

definition assign_if_given :: "'a option \<Rightarrow> 'a \<Rightarrow> 'a" where
  "assign_if_given arg old = (case arg of None \<Rightarrow> old | Some v \<Rightarrow> v)"

definition UpdateTask_mutate ::
  "database \<Rightarrow> string \<Rightarrow> string \<Rightarrow> string option \<Rightarrow> string option \<Rightarrow> string option
     \<Rightarrow> string option \<Rightarrow> string option \<Rightarrow> (error + task) \<times> database" where
  "UpdateTask_mutate db ident organizationSlug title description status assigneeEmail dueDate =
     (case to_pk ident of
        Inl e \<Rightarrow> (Inl e, db)
      | Inr n \<Rightarrow>
         (case objects_get Task
                 (\<lambda>t. task_id t = n \<and> project_organization_slug_is db organizationSlug t)
                 (tasks db) of
            Inl e \<Rightarrow>
              (if e = DoesNotExist Task
               then Inl (Exception ''Task not found or does not belong to organization'')
               else Inl e, db)
          | Inr task0 \<Rightarrow>
              (let task1 = task0\<lparr>task_title := assign_if_given title (task_title task0)\<rparr>;
                   task2 = task1\<lparr>task_description :=
                                    assign_if_given description (task_description task1)\<rparr>;
                   task3 = task2\<lparr>task_status := assign_if_given status (task_status task2)\<rparr>;
                   task4 = task3\<lparr>task_assignee_email :=
                                    assign_if_given assigneeEmail (task_assignee_email task3)\<rparr>;
                   task5 = task4\<lparr>task_due_date :=
                                    (case dueDate of None \<Rightarrow> task_due_date task4
                                     | Some d \<Rightarrow> Some d)\<rparr>
               in (Inr task5,
                   db\<lparr>tasks := map (\<lambda>t. if task_id t = task_id task5 then task5 else t)
                                    (tasks db)\<rparr>))))"

section \<open>The rate expression and the scope of a statistics request\<close>

text \<open>
  The expression both resolvers evaluate for the rate, as a function of the two counts:
  \<^verbatim>\<open>round(completed / total * 100, 2)\<close>, and \<open>0.0\<close> for a total of 0.
\<close>

definition completion_rate_spec :: "nat \<Rightarrow> nat \<Rightarrow> pyfloat" where
  "completion_rate_spec completed_count total_count =
     (if total_count = 0 then 0
      else py_round
             (py_float_mul (round_binary64 (of_nat completed_count / of_nat total_count)) 100) 2)"

text \<open>
  The projects in scope of a statistics request for organization \<open>ou\<close>: the projects that
  belong to \<open>ou\<close>, narrowed to the one with the given key when a project id is given.
  The tasks in scope are the tasks whose project is in scope.
\<close>

definition in_scope_projects :: "database \<Rightarrow> organization \<Rightarrow> string option \<Rightarrow> project list" where
  "in_scope_projects db ou projectId =
     filter (\<lambda>p. project_organization db p = Some ou \<and>
                 (truthy projectId \<longrightarrow> py_int (arg_value projectId) = Some (project_id p)))
            (projects db)"

definition in_scope_tasks :: "database \<Rightarrow> organization \<Rightarrow> string option \<Rightarrow> task list" where
  "in_scope_tasks db ou projectId =
     filter (\<lambda>t. \<exists>p \<in> set (in_scope_projects db ou projectId). task_project db t = Some p)
            (tasks db)"

section \<open>A sample database\<close>

text \<open>
  Two tenants.  ``acme'' owns the project ``Launch'' with four tasks, two of them done, one
  in progress and one to do; ``globex'' owns one project with one task.
\<close>

definition acme :: organization where
  "acme = \<lparr>org_id = 1, org_name = ''Acme'', org_slug = ''acme'',
           org_contact_email = ''ops@acme.test''\<rparr>"

definition globex :: organization where
  "globex = \<lparr>org_id = 2, org_name = ''Globex'', org_slug = ''globex'',
             org_contact_email = ''ops@globex.test''\<rparr>"

definition launch :: project where
  "launch = \<lparr>project_id = 1, project_organization_id = 1, project_name = ''Launch'',
             project_description = [], project_status = ''ACTIVE'', project_due_date = None\<rparr>"

definition relaunch :: project where
  "relaunch = \<lparr>project_id = 2, project_organization_id = 2, project_name = ''Relaunch'',
               project_description = [], project_status = ''ACTIVE'', project_due_date = None\<rparr>"

definition mk_task :: "int \<Rightarrow> int \<Rightarrow> string \<Rightarrow> string \<Rightarrow> task" where
  "mk_task k pk title status =
     \<lparr>task_id = k, task_project_id = pk, task_title = title, task_description = ''about'',
      task_status = status, task_assignee_email = ''dev@acme.test'',
      task_due_date = Some ''2025-01-31T12:00:00''\<rparr>"

definition sample_comment :: task_comment where
  "sample_comment = \<lparr>comment_id = 1, comment_task_id = 1, comment_content = ''first'',
                     comment_author_email = ''dev@acme.test''\<rparr>"

definition sample_db :: database where
  "sample_db =
     \<lparr>organizations = [acme, globex],
      projects = [launch, relaunch],
      tasks = [mk_task 1 1 ''design'' ''DONE'', mk_task 2 1 ''build'' ''DONE'',
               mk_task 3 1 ''test'' ''IN_PROGRESS'', mk_task 4 1 ''ship'' ''TODO'',
               mk_task 5 2 ''plan'' ''DONE''],
      task_comments = [sample_comment]\<rparr>"

text \<open>The same database with three tasks in ``Launch'', one of them done.\<close>

definition thirds_db :: database where
  "thirds_db =
     sample_db\<lparr>tasks := [mk_task 1 1 ''design'' ''DONE'', mk_task 2 1 ''build'' ''TODO'',
                        mk_task 3 1 ''test'' ''TODO'']\<rparr>"

section \<open>Facts about rows with unique keys\<close>

lemma find_distinct_key:
  "distinct (map f xs) \<Longrightarrow> x \<in> set xs \<Longrightarrow> find (\<lambda>y. f y = f x) xs = Some x"
  by (induction xs) (auto simp: image_iff)

lemma filter_distinct_key:
  "distinct (map f xs) \<Longrightarrow> x \<in> set xs \<Longrightarrow> P x \<Longrightarrow> filter (\<lambda>y. f y = f x \<and> P y) xs = [x]"
proof (induction xs)
  case Nil
  then show ?case by simp
next
  case (Cons a xs)
  show ?case
  proof (cases "a = x")
    case True
    from Cons.prems(1) have "\<forall>y \<in> set xs. f y \<noteq> f a" by (auto simp: image_iff)
    then have "filter (\<lambda>y. f y = f x \<and> P y) xs = []"
      using True by (simp add: filter_empty_conv)
    with True Cons.prems(3) show ?thesis by simp
  next
    case False
    with Cons.prems have in_xs: "x \<in> set xs" and dist: "distinct (map f xs)"
      and neq: "f a \<noteq> f x" by (auto simp: image_iff)
    from Cons.IH [OF dist in_xs Cons.prems(3)] neq show ?thesis by simp
  qed
qed

lemma find_Some_member: "find P xs = Some x \<Longrightarrow> x \<in> set xs \<and> P x"
  by (induction xs) (auto split: if_splits)

lemma organization_slug_is_navigation:
  assumes "distinct (map org_id (organizations db))"
  shows "organization_slug_is db s p \<longleftrightarrow>
         map_option org_slug (project_organization db p) = Some s"
proof
  assume "organization_slug_is db s p"
  then obtain ou where ou: "ou \<in> set (organizations db)"
    "org_id ou = project_organization_id p" "org_slug ou = s"
    by (auto simp: organization_slug_is_def)
  from find_distinct_key [OF assms ou(1)] ou(2)
  have "project_organization db p = Some ou"
    by (simp add: project_organization_def)
  with ou(3) show "map_option org_slug (project_organization db p) = Some s" by simp
next
  assume "map_option org_slug (project_organization db p) = Some s"
  then obtain ou where "project_organization db p = Some ou" "org_slug ou = s" by auto
  then show "organization_slug_is db s p"
    unfolding organization_slug_is_def project_organization_def
    by (auto dest: find_Some_member)
qed

lemma project_organization_slug_is_navigation:
  assumes "distinct (map org_id (organizations db))"
    and "distinct (map project_id (projects db))"
  shows "project_organization_slug_is db s t \<longleftrightarrow> task_org_slug db t = Some s"
proof
  assume "project_organization_slug_is db s t"
  then obtain p where p: "p \<in> set (projects db)" "project_id p = task_project_id t"
    "organization_slug_is db s p"
    by (auto simp: project_organization_slug_is_def)
  from find_distinct_key [OF assms(2) p(1)] p(2)
  have "task_project db t = Some p" by (simp add: task_project_def)
  with p(3) show "task_org_slug db t = Some s"
    by (simp add: task_org_slug_def organization_slug_is_navigation [OF assms(1)])
next
  assume a: "task_org_slug db t = Some s"
  then obtain p where tp: "task_project db t = Some p"
    and sl: "map_option org_slug (project_organization db p) = Some s"
    by (auto simp: task_org_slug_def split: option.splits)
  from tp have "p \<in> set (projects db)" "project_id p = task_project_id t"
    unfolding task_project_def by (auto dest: find_Some_member)
  moreover from sl have "organization_slug_is db s p"
    by (simp add: organization_slug_is_navigation [OF assms(1)])
  ultimately show "project_organization_slug_is db s t"
    by (auto simp: project_organization_slug_is_def)
qed

lemma extend_all_tasks_concat:
  "extend_all_tasks db acc ps = acc @ concat (map (project_tasks db) ps)"
  by (induction ps arbitrary: acc) simp_all

lemma sum_status_length:
  "sum_status s n ts = n + length (filter (\<lambda>t. task_status t = s) ts)"
  by (induction ts arbitrary: n) simp_all

lemma length_filter_split_key:
  "a \<notin> A \<Longrightarrow>
   length (filter (\<lambda>t. Q t \<and> f t \<in> insert a A) ts) =
   length (filter (\<lambda>t. Q t \<and> f t = a) ts) + length (filter (\<lambda>t. Q t \<and> f t \<in> A) ts)"
  by (induction ts) auto

lemma length_filter_project_tasks:
  "distinct (map project_id ps) \<Longrightarrow>
   length (filter Q (concat (map (project_tasks db) ps))) =
   length (filter (\<lambda>t. Q t \<and> task_project_id t \<in> project_id ` set ps) (tasks db))"
proof (induction ps)
  case Nil
  then show ?case by simp
next
  case (Cons p ps)
  then have fresh: "project_id p \<notin> project_id ` set ps" and dist: "distinct (map project_id ps)"
    by auto
  have "length (filter Q (project_tasks db p)) =
        length (filter (\<lambda>t. Q t \<and> task_project_id t = project_id p) (tasks db))"
    by (simp add: project_tasks_def conj_commute)
  with Cons.IH [OF dist] length_filter_split_key [OF fresh, of Q task_project_id "tasks db"]
  show ?case by simp
qed

lemma objects_get_unique:
  "distinct (map f rows) \<Longrightarrow> x \<in> set rows \<Longrightarrow> P x \<Longrightarrow>
   objects_get m (\<lambda>y. f y = f x \<and> P y) rows = Inr x"
  by (simp add: objects_get_def filter_distinct_key)

lemma objects_get_unique_key:
  "distinct (map f rows) \<Longrightarrow> x \<in> set rows \<Longrightarrow>
   objects_get m (\<lambda>y. f y = f x) rows = Inr x"
  using objects_get_unique [of f rows x "\<lambda>_. True" m] by simp

lemma objects_get_none:
  "\<forall>y \<in> set rows. \<not> P y \<Longrightarrow> objects_get m P rows = Inl (DoesNotExist m)"
  by (simp add: objects_get_def filter_empty_conv [THEN iffD2])

lemma project_organization_eq:
  assumes "distinct (map org_id (organizations db))" and "ou \<in> set (organizations db)"
  shows "project_organization db p = Some ou \<longleftrightarrow> project_organization_id p = org_id ou"
proof
  assume "project_organization db p = Some ou"
  then show "project_organization_id p = org_id ou"
    unfolding project_organization_def by (auto dest: find_Some_member)
next
  assume "project_organization_id p = org_id ou"
  with find_distinct_key [OF assms] show "project_organization db p = Some ou"
    by (simp add: project_organization_def)
qed

lemma task_project_eq:
  assumes "distinct (map project_id (projects db))" and "p \<in> set (projects db)"
  shows "task_project db t = Some p \<longleftrightarrow> task_project_id t = project_id p"
proof
  assume "task_project db t = Some p"
  then show "task_project_id t = project_id p"
    unfolding task_project_def by (auto dest: find_Some_member)
next
  assume "task_project_id t = project_id p"
  with find_distinct_key [OF assms] show "task_project db t = Some p"
    by (simp add: task_project_def)
qed

lemma org_slug_unique:
  assumes "distinct (map org_slug (organizations db))"
    and "a \<in> set (organizations db)" and "b \<in> set (organizations db)"
    and "org_slug a = org_slug b"
  shows "a = b"
  using assms by (meson distinct_map inj_onD)

lemma py_int_Some_nonempty: "py_int p = Some n \<Longrightarrow> p \<noteq> []"
  by (auto simp: py_int_def py_strip_def split: if_splits)

lemma to_fk_Inr: "to_fk p = Inr n \<longleftrightarrow> py_int p = Some n \<and> in_key_range n"
  by (auto simp: to_fk_def split: option.splits)

section \<open>Facts about float rounding\<close>

lemma round_half_even_cases:
  "round_half_even x = \<lfloor>x\<rfloor> \<or> round_half_even x = \<lfloor>x\<rfloor> + 1"
  by (simp add: round_half_even_def Let_def)

lemma round_half_even_of_int [simp]: "round_half_even (of_int n) = n"
  by (simp add: round_half_even_def Let_def)

lemma round_half_even_ge: "of_int n \<le> x \<Longrightarrow> n \<le> round_half_even x"
proof -
  assume "of_int n \<le> x"
  then have "n \<le> \<lfloor>x\<rfloor>" by (simp add: le_floor_iff)
  with round_half_even_cases [of x] show ?thesis by auto
qed

lemma round_half_even_le: "x \<le> of_int n \<Longrightarrow> round_half_even x \<le> n"
proof (cases "x = of_int n")
  case True
  then show ?thesis by simp
next
  case False
  assume "x \<le> of_int n"
  with False have "x < of_int n" by simp
  then have "\<lfloor>x\<rfloor> < n" by (simp add: floor_less_iff)
  with round_half_even_cases [of x] show ?thesis by auto
qed

lemma float_exponent_lower:
  assumes "0 < x"
  shows "power_int 2 (float_exponent x) \<le> x"
proof -
  obtain p q where pq: "quotient_of x = (p, q)" by (cases "quotient_of x")
  then have q: "0 < q" and x: "x = of_int p / of_int q"
    by (simp_all add: quotient_of_denom_pos quotient_of_div)
  from assms x q have p: "0 < p" by (simp add: zero_less_divide_iff)
  let ?e = "bitlen p - bitlen q"
  show ?thesis
  proof (cases "power_int 2 ?e \<le> x")
    case True
    then show ?thesis by (simp add: float_exponent_def pq Let_def)
  next
    case False
    have bp: "1 \<le> bitlen p" and bq: "1 \<le> bitlen q"
      using p q bitlen_eq_zero_iff [of p] bitlen_eq_zero_iff [of q] bitlen_nonneg [of p] bitlen_nonneg [of q]
      by linarith+
    from bitlen_bounds [OF p] have "(2::int) ^ nat (bitlen p - 1) \<le> p" by simp
    then have "rat_of_int (2 ^ nat (bitlen p - 1)) \<le> rat_of_int p" by (simp only: of_int_le_iff)
    then have lo: "(2::rat) ^ nat (bitlen p - 1) \<le> of_int p" by simp
    from bitlen_bounds [OF q] have "q < (2::int) ^ nat (bitlen q)" by simp
    then have "rat_of_int q < rat_of_int (2 ^ nat (bitlen q))" by (simp only: of_int_less_iff)
    then have hi: "of_int q < (2::rat) ^ nat (bitlen q)" by simp
    have eq: "?e - 1 = (bitlen p - 1) - bitlen q" by simp
    have "power_int (2::rat) (?e - 1) = power_int 2 (bitlen p - 1) / power_int 2 (bitlen q)"
      by (subst eq) (rule power_int_diff, simp)
    also have "\<dots> = 2 ^ nat (bitlen p - 1) / 2 ^ nat (bitlen q)"
      using bp bq by (simp add: power_int_def)
    also have "\<dots> \<le> of_int p / 2 ^ nat (bitlen q)"
      using lo by (simp add: divide_right_mono)
    also have "\<dots> \<le> of_int p / of_int q"
      using hi p q by (intro divide_left_mono) (simp_all add: less_imp_le)
    finally have "power_int 2 (?e - 1) \<le> x" using x by simp
    with False show ?thesis by (simp add: float_exponent_def pq Let_def)
  qed
qed

lemma float_exponent_upper:
  assumes "0 < x"
  shows "x < power_int 2 (float_exponent x + 1)"
proof -
  obtain p q where pq: "quotient_of x = (p, q)" by (cases "quotient_of x")
  then have q: "0 < q" and x: "x = of_int p / of_int q"
    by (simp_all add: quotient_of_denom_pos quotient_of_div)
  from assms x q have p: "0 < p" by (simp add: zero_less_divide_iff)
  let ?e = "bitlen p - bitlen q"
  show ?thesis
  proof (cases "power_int 2 ?e \<le> x")
    case False
    then show ?thesis by (simp add: float_exponent_def pq Let_def)
  next
    case True
    have bp: "1 \<le> bitlen p" and bq: "1 \<le> bitlen q"
      using p q bitlen_eq_zero_iff [of p] bitlen_eq_zero_iff [of q] bitlen_nonneg [of p] bitlen_nonneg [of q]
      by linarith+
    from bitlen_bounds [OF q] have "(2::int) ^ nat (bitlen q - 1) \<le> q" by simp
    then have "rat_of_int (2 ^ nat (bitlen q - 1)) \<le> rat_of_int q" by (simp only: of_int_le_iff)
    then have lo: "(2::rat) ^ nat (bitlen q - 1) \<le> of_int q" by simp
    from bitlen_bounds [OF p] have "p < (2::int) ^ nat (bitlen p)" by simp
    then have "rat_of_int p < rat_of_int (2 ^ nat (bitlen p))" by (simp only: of_int_less_iff)
    then have hi: "of_int p < (2::rat) ^ nat (bitlen p)" by simp
    have "x = of_int p / of_int q" by (rule x)
    also have "\<dots> < 2 ^ nat (bitlen p) / of_int q"
      using hi q by (simp add: divide_strict_right_mono)
    also have "\<dots> \<le> 2 ^ nat (bitlen p) / 2 ^ nat (bitlen q - 1)"
      using lo q by (intro divide_left_mono) simp_all
    also have "\<dots> = power_int 2 (bitlen p) / power_int 2 (bitlen q - 1)"
      using bp bq by (simp add: power_int_def)
    also have "\<dots> = power_int (2::rat) (bitlen p - (bitlen q - 1))"
      using power_int_diff [of "2::rat" "bitlen p" "bitlen q - 1"] by simp
    also have "bitlen p - (bitlen q - 1) = ?e + 1" by simp
    finally show ?thesis using True by (simp add: float_exponent_def pq Let_def)
  qed
qed


lemma round_binary64_nonneg:
  assumes "0 \<le> x"
  shows "0 \<le> round_binary64 x"
proof (cases "x = 0")
  case True
  then show ?thesis by (simp add: round_binary64_def)
next
  case False
  with assms have pos: "0 < x" by simp
  define ulp :: rat where "ulp = power_int 2 (max (float_exponent \<bar>x\<bar>) (- 1022) - 52)"
  have ulp: "0 < ulp" by (simp add: ulp_def)
  from pos ulp have "rat_of_int 0 \<le> x / ulp" by simp
  then have "0 \<le> round_half_even (x / ulp)" by (rule round_half_even_ge)
  moreover have "round_binary64 x = of_int (round_half_even (x / ulp)) * ulp"
    using pos by (simp add: round_binary64_def Let_def ulp_def)
  ultimately show ?thesis using ulp by simp
qed

lemma round_binary64_le_int:
  assumes "0 \<le> x" and "x \<le> of_int M" and "M < 2 ^ 53"
  shows "round_binary64 x \<le> of_int M"
proof (cases "x = 0")
  case True
  with assms show ?thesis by (simp add: round_binary64_def)
next
  case False
  with assms have pos: "0 < x" by simp
  define e where "e = max (float_exponent \<bar>x\<bar>) (- 1022)"
  define ulp :: rat where "ulp = power_int 2 (e - 52)"
  have ulp: "0 < ulp" by (simp add: ulp_def)
  have "power_int 2 (float_exponent x) \<le> x" using pos by (rule float_exponent_lower)
  also have "x \<le> of_int M" by fact
  also have "rat_of_int M < rat_of_int (2 ^ 53)" using assms(3) by (simp only: of_int_less_iff)
  finally have "power_int (2::rat) (float_exponent x) < power_int 2 53" by simp
  then have "float_exponent x < 53"
    by (rule power_int_le_imp_less_exp [rotated]) simp_all
  with pos have e: "e \<le> 52" by (simp add: e_def)
  then have ulp_inv: "ulp = 1 / 2 ^ nat (52 - e)"
    by (cases "e = 52") (simp_all add: ulp_def power_int_def inverse_eq_divide power_one_over)
  have "x / ulp \<le> of_int M / ulp" using assms(2) ulp by (simp add: divide_right_mono)
  also have "of_int M / ulp = rat_of_int (M * 2 ^ nat (52 - e))" by (simp add: ulp_inv)
  finally have "round_half_even (x / ulp) \<le> M * 2 ^ nat (52 - e)" by (rule round_half_even_le)
  then have "rat_of_int (round_half_even (x / ulp)) \<le> rat_of_int (M * 2 ^ nat (52 - e))"
    by (simp only: of_int_le_iff)
  then have "of_int (round_half_even (x / ulp)) * ulp \<le> of_int M"
    by (simp add: ulp_inv field_simps)
  moreover have "round_binary64 x = of_int (round_half_even (x / ulp)) * ulp"
    using pos by (simp add: round_binary64_def Let_def ulp_def e_def)
  ultimately show ?thesis by simp
qed

lemma completion_rate_bounds:
  assumes "c \<le> t" and "0 < t"
  shows "0 \<le> py_round (py_float_mul (round_binary64 (of_int (int c) / of_int (int t))) 100) 2 \<and>
         py_round (py_float_mul (round_binary64 (of_int (int c) / of_int (int t))) 100) 2 \<le> 100"
proof -
  define q where "q = round_binary64 (of_int (int c) / of_int (int t))"
  define y where "y = py_float_mul q 100"
  have frac: "0 \<le> rat_of_int (int c) / of_int (int t)" "rat_of_int (int c) / of_int (int t) \<le> of_int 1"
    using assms by simp_all
  have q0: "0 \<le> q" unfolding q_def using frac(1) by (rule round_binary64_nonneg)
  have q1: "q \<le> 1" unfolding q_def using round_binary64_le_int [OF frac] by simp
  have y0: "0 \<le> y" unfolding y_def py_float_mul_def using q0 by (intro round_binary64_nonneg) simp
  have "q * 100 \<le> of_int 100" using q1 by simp
  with q0 have "round_binary64 (q * 100) \<le> of_int 100"
    by (intro round_binary64_le_int) simp_all
  then have y1: "y \<le> 100" by (simp add: y_def py_float_mul_def)
  have r0: "0 \<le> round_half_even (y * 10 ^ 2)"
    using y0 by (intro round_half_even_ge) simp
  have "y * 10 ^ 2 \<le> of_int 10000" using y1 by simp
  then have r1: "round_half_even (y * 10 ^ 2) \<le> 10000" by (rule round_half_even_le)
  have d0: "0 \<le> rat_of_int (round_half_even (y * 10 ^ 2)) / 10 ^ 2" using r0 by simp
  from r1 have "rat_of_int (round_half_even (y * 10 ^ 2)) \<le> rat_of_int 10000"
    by (simp only: of_int_le_iff)
  then have d1: "rat_of_int (round_half_even (y * 10 ^ 2)) / 10 ^ 2 \<le> of_int 100" by simp
  have "0 \<le> py_round y 2" unfolding py_round_def using d0 by (rule round_binary64_nonneg)
  moreover have "py_round y 2 \<le> 100"
    unfolding py_round_def using round_binary64_le_int [OF d0 d1] by simp
  ultimately show ?thesis by (simp add: y_def q_def)
qed

lemma round_binary64_one: "round_binary64 1 = 1"
  by code_simp

lemma round_binary64_hundred: "round_binary64 100 = 100"
  by code_simp

lemma completion_rate_all_done:
  assumes "0 < t"
  shows "py_round (py_float_mul (round_binary64 (of_int (int t) / of_int (int t))) 100) 2 = 100"
proof -
  from assms have "rat_of_int (int t) / of_int (int t) = 1" by simp
  moreover have "round_half_even 10000 = 10000"
    using round_half_even_of_int [of 10000] by simp
  ultimately show ?thesis
    by (simp add: py_float_mul_def py_round_def round_binary64_one round_binary64_hundred)
qed

section \<open>The sample database is well formed\<close>

lemma wf_db_sample: "wf_db sample_db"
  by (simp add: wf_db_def sample_db_def acme_def globex_def launch_def relaunch_def
      mk_task_def sample_comment_def)

lemma py_int_examples:
  "py_int ''1'' = Some 1" "py_int ''2'' = Some 2" "py_int ''3'' = Some 3"
  "py_int ''999'' = Some 999" "py_int [] = None" "py_int ''abc'' = None"
  by (simp_all add: py_int_def py_strip_def py_isspace_def parse_unsigned_def digit_val_def
      int_max_str_digits_def)

lemma to_fk_examples: "to_fk ''1'' = Inr 1" "to_fk ''2'' = Inr 2"
  by (simp_all add: to_fk_def in_key_range_def py_int_examples)

section \<open>Tenant-scoped queries and mutations\<close>

text \<open>
  Claim C8.  The query \<^verbatim>\<open>organization(slug)\<close> returns the organization with that slug when
  it is stored (slugs being unique, there is exactly one), and raises the ``not found''
  exception when no organization has the slug.
\<close>

theorem resolve_organization_by_slug:
  assumes "wf_db db"
  shows "(\<forall>ou \<in> set (organizations db). resolve_organization db (org_slug ou) = Inr ou) \<and>
         ((\<forall>ou \<in> set (organizations db). org_slug ou \<noteq> s) \<longrightarrow>
            resolve_organization db s = Inl (Exception ''Organization not found''))"
proof (intro conjI ballI impI)
  fix ou assume "ou \<in> set (organizations db)"
  moreover from assms have "distinct (map org_slug (organizations db))" by (simp add: wf_db_def)
  ultimately have "objects_get Organization (\<lambda>y. org_slug y = org_slug ou) (organizations db) = Inr ou"
    by (rule objects_get_unique_key [rotated])
  then show "resolve_organization db (org_slug ou) = Inr ou"
    by (simp add: resolve_organization_def)
next
  assume "\<forall>ou \<in> set (organizations db). org_slug ou \<noteq> s"
  then have "objects_get Organization (\<lambda>y. org_slug y = s) (organizations db)
             = Inl (DoesNotExist Organization)"
    by (rule objects_get_none)
  then show "resolve_organization db s = Inl (Exception ''Organization not found'')"
    by (simp add: resolve_organization_def)
qed

theorem resolve_organization_by_slug_witness:
  "wf_db sample_db \<and> resolve_organization sample_db ''acme'' = Inr acme \<and>
   resolve_organization sample_db ''ghost'' = Inl (Exception ''Organization not found'')"
  using resolve_organization_by_slug [OF wf_db_sample, of "''ghost''"] wf_db_sample
  by (simp add: sample_db_def acme_def globex_def)

text \<open>
  Claim C5.  When no organization has slug \<open>s\<close>, \<^verbatim>\<open>projectStatistics\<close> returns \<^verbatim>\<open>None\<close>, with or
  without a project id, and raises nothing; the \<^verbatim>\<open>organization\<close> query raises on the same
  slug.
\<close>

theorem projectStatistics_missing_organization:
  assumes "\<forall>ou \<in> set (organizations db). org_slug ou \<noteq> s"
  shows "resolve_projectStatistics db s projectId = Inr None \<and>
         resolve_organization db s = Inl (Exception ''Organization not found'')"
proof -
  from assms have "objects_get Organization (\<lambda>y. org_slug y = s) (organizations db)
             = Inl (DoesNotExist Organization)"
    by (rule objects_get_none)
  then show ?thesis
    by (simp add: resolve_projectStatistics_def resolve_organization_def)
qed

theorem projectStatistics_missing_organization_witness:
  "''ghost'' \<notin> set (map org_slug (organizations sample_db)) \<and>
   resolve_projectStatistics sample_db ''ghost'' (Some ''1'') = Inr None \<and>
   resolve_organization sample_db ''ghost'' = Inl (Exception ''Organization not found'')"
proof -
  have h: "\<forall>ou \<in> set (organizations sample_db). org_slug ou \<noteq> ''ghost''"
    by (simp add: sample_db_def acme_def globex_def)
  from projectStatistics_missing_organization [OF h, of "Some ''1''"] h show ?thesis by auto
qed

text \<open>
  Claim C6.  When no organization has slug \<open>s\<close>, \<^verbatim>\<open>createProject\<close> raises the ``not found''
  exception and the database after the call is the database before it: no project row is
  stored.
\<close>

theorem CreateProject_missing_organization:
  assumes "\<forall>ou \<in> set (organizations db). org_slug ou \<noteq> s"
  shows "CreateProject_mutate db s name description status dueDate =
           (Inl (Exception ''Organization not found''), db)"
proof -
  from assms have "objects_get Organization (\<lambda>y. org_slug y = s) (organizations db)
             = Inl (DoesNotExist Organization)"
    by (rule objects_get_none)
  then show ?thesis by (simp add: CreateProject_mutate_def)
qed

theorem CreateProject_missing_organization_witness:
  "''ghost'' \<notin> set (map org_slug (organizations sample_db)) \<and>
   CreateProject_mutate sample_db ''ghost'' ''Plan'' [] ''ACTIVE'' None =
     (Inl (Exception ''Organization not found''), sample_db) \<and>
   projects (snd (CreateProject_mutate sample_db ''ghost'' ''Plan'' [] ''ACTIVE'' None)) =
     [launch, relaunch]"
proof -
  have h: "\<forall>ou \<in> set (organizations sample_db). org_slug ou \<noteq> ''ghost''"
    by (simp add: sample_db_def acme_def globex_def)
  from CreateProject_missing_organization [OF h, of "''Plan''" "[]" "''ACTIVE''" None] h
  show ?thesis by (auto simp: sample_db_def)
qed

text \<open>
  Claim C2.  For a stored organization, \<^verbatim>\<open>projects(organizationSlug)\<close> with its slug returns
  exactly the stored projects whose organization is that one, in table order: each
  returned project belongs to it and no project of another organization is returned.
\<close>

theorem resolve_projects_of_organization:
  assumes "wf_db db" and "ou \<in> set (organizations db)"
  shows "resolve_projects db (org_slug ou) =
           filter (\<lambda>p. project_organization db p = Some ou) (projects db)"
proof -
  from assms(1) have ids: "distinct (map org_id (organizations db))"
    and slugs: "distinct (map org_slug (organizations db))" by (simp_all add: wf_db_def)
  have "organization_slug_is db (org_slug ou) p \<longleftrightarrow> project_organization db p = Some ou" for p
  proof
    assume "organization_slug_is db (org_slug ou) p"
    then obtain b where b: "b \<in> set (organizations db)" "org_id b = project_organization_id p"
      "org_slug b = org_slug ou" by (auto simp: organization_slug_is_def)
    from org_slug_unique [OF slugs b(1) assms(2) b(3)] b(2)
    show "project_organization db p = Some ou"
      by (simp add: project_organization_eq [OF ids assms(2)])
  next
    assume "project_organization db p = Some ou"
    then show "organization_slug_is db (org_slug ou) p"
      by (simp add: organization_slug_is_navigation [OF ids])
  qed
  then have "organization_slug_is db (org_slug ou) = (\<lambda>p. project_organization db p = Some ou)"
    by (intro ext)
  then show ?thesis by (simp add: resolve_projects_def)
qed

theorem resolve_projects_of_organization_witness:
  "wf_db sample_db \<and> acme \<in> set (organizations sample_db) \<and>
   resolve_projects sample_db ''acme'' = [launch] \<and>
   filter (\<lambda>p. project_organization sample_db p = Some acme) (projects sample_db) = [launch]"
proof -
  have h: "acme \<in> set (organizations sample_db)" by (simp add: sample_db_def)
  have "resolve_projects sample_db (org_slug acme) = [launch]"
    by (simp add: resolve_projects_def organization_slug_is_def sample_db_def acme_def
        globex_def launch_def relaunch_def)
  with resolve_projects_of_organization [OF wf_db_sample h] wf_db_sample h
  show ?thesis by (simp add: acme_def)
qed





text \<open>
  Claim C10.  When the project id denotes the key of a stored project that belongs to
  another organization than the one with slug \<open>s\<close>, the query
  \<^verbatim>\<open>tasks(organizationSlug=s, projectId=p)\<close> returns the empty list: the two filters are
  conjoined.
\<close>

theorem resolve_tasks_cross_tenant_project:
  assumes "wf_db db"
    and "to_fk p = Inr (project_id P)" and "P \<in> set (projects db)"
    and "ou \<in> set (organizations db)" and "org_slug ou = s"
    and "project_organization db P = Some ou'" and "ou' \<noteq> ou"
  shows "resolve_tasks db s (Some p) = Inr []"
proof -
  from assms(1) have ids: "distinct (map org_id (organizations db))"
    and slugs: "distinct (map org_slug (organizations db))"
    and pids: "distinct (map project_id (projects db))" by (simp_all add: wf_db_def)
  from assms(6) have ou': "ou' \<in> set (organizations db)"
    unfolding project_organization_def by (auto dest: find_Some_member)
  have other: "org_slug ou' \<noteq> s"
    using org_slug_unique [OF slugs ou' assms(4)] assms(5,7) by auto
  have "\<not> (project_organization_slug_is db s t \<and> task_project_id t = project_id P)" for t
  proof
    assume a: "project_organization_slug_is db s t \<and> task_project_id t = project_id P"
    then have "task_project db t = Some P" by (simp add: task_project_eq [OF pids assms(3)])
    moreover from a have "task_org_slug db t = Some s"
      by (simp add: project_organization_slug_is_navigation [OF ids pids])
    ultimately show False using assms(6) other by (simp add: task_org_slug_def)
  qed
  then have "filter (\<lambda>t. task_project_id t = project_id P)
               (filter (project_organization_slug_is db s) (tasks db)) = []"
    by (simp add: filter_empty_conv)
  moreover from assms(2) have "p \<noteq> []" by (auto simp: to_fk_Inr dest: py_int_Some_nonempty)
  ultimately show ?thesis
    using assms(2) by (simp add: resolve_tasks_def truthy_def arg_value_def)
qed

theorem resolve_tasks_cross_tenant_project_witness:
  "wf_db sample_db \<and> to_fk ''2'' = Inr (project_id relaunch) \<and>
   relaunch \<in> set (projects sample_db) \<and> acme \<in> set (organizations sample_db) \<and>
   org_slug acme = ''acme'' \<and> project_organization sample_db relaunch = Some globex \<and>
   globex \<noteq> acme \<and> resolve_tasks sample_db ''acme'' (Some ''2'') = Inr []"
proof -
  have h2: "to_fk ''2'' = Inr (project_id relaunch)"
    by (simp add: to_fk_examples relaunch_def)
  have h3: "relaunch \<in> set (projects sample_db)" by (simp add: sample_db_def)
  have h4: "acme \<in> set (organizations sample_db)" by (simp add: sample_db_def)
  have h5: "org_slug acme = ''acme''" by (simp add: acme_def)
  have h6: "project_organization sample_db relaunch = Some globex"
    by (simp add: project_organization_def sample_db_def acme_def globex_def relaunch_def)
  have h7: "globex \<noteq> acme" by (simp add: acme_def globex_def)
  from resolve_tasks_cross_tenant_project [OF wf_db_sample h2 h3 h4 h5 h6 h7]
    wf_db_sample h2 h3 h4 h5 h6 h7
  show ?thesis by simp
qed


text \<open>
  Claim C4 as stated fails for a task id that is not an integer: no task has such an id, yet
  the query raises \<^verbatim>\<open>ValueError\<close>, which \<^verbatim>\<open>except Task.DoesNotExist\<close> does not catch.
\<close>

theorem resolve_taskComments_non_integer_counterexample:
  "py_int ''abc'' = None \<and> resolve_taskComments sample_db ''abc'' ''acme'' = Inl ValueError"
  by (simp add: resolve_taskComments_def to_pk_def py_int_examples)

text \<open>
  Claim C4, as amended.  For a task id that denotes an integer (such as 999): when no stored
  task with that key belongs to the organization with slug \<open>s\<close>, \<^verbatim>\<open>taskComments\<close> returns the
  empty list and raises nothing; when such a task is stored, its comments are returned.  A
  task id that denotes no integer raises \<^verbatim>\<open>ValueError\<close>.
\<close>

theorem resolve_taskComments_soft_empty:
  assumes "wf_db db"
  shows "(py_int taskId = Some n \<and>
          (\<forall>T \<in> set (tasks db). task_id T = n \<longrightarrow> task_org_slug db T \<noteq> Some s) \<longrightarrow>
            resolve_taskComments db taskId s = Inr []) \<and>
         (\<forall>T \<in> set (tasks db).
            py_int taskId = Some (task_id T) \<and> task_org_slug db T = Some s \<longrightarrow>
            resolve_taskComments db taskId s =
              Inr (filter (\<lambda>c. comment_task_id c = task_id T) (task_comments db))) \<and>
         (py_int taskId = None \<longrightarrow> resolve_taskComments db taskId s = Inl ValueError)"
proof (intro conjI ballI impI)
  from assms(1) have ids: "distinct (map org_id (organizations db))"
    and pids: "distinct (map project_id (projects db))"
    and tids: "distinct (map task_id (tasks db))" by (simp_all add: wf_db_def)
  note nav = project_organization_slug_is_navigation [OF ids pids]
  {
    assume a: "py_int taskId = Some n \<and>
      (\<forall>T \<in> set (tasks db). task_id T = n \<longrightarrow> task_org_slug db T \<noteq> Some s)"
    then have "\<forall>t \<in> set (tasks db). \<not> (task_id t = n \<and> project_organization_slug_is db s t)"
      by (simp add: nav)
    then have "objects_get Task (\<lambda>t. task_id t = n \<and> project_organization_slug_is db s t)
                 (tasks db) = Inl (DoesNotExist Task)"
      by (rule objects_get_none)
    with a show "resolve_taskComments db taskId s = Inr []"
      by (simp add: resolve_taskComments_def to_pk_def)
  }
  {
    fix T assume T: "T \<in> set (tasks db)"
      and b: "py_int taskId = Some (task_id T) \<and> task_org_slug db T = Some s"
    then have "project_organization_slug_is db s T" by (simp add: nav)
    with objects_get_unique [OF tids T, of "project_organization_slug_is db s" Task]
    have "objects_get Task (\<lambda>t. task_id t = task_id T \<and> project_organization_slug_is db s t)
            (tasks db) = Inr T" by simp
    with b show "resolve_taskComments db taskId s =
        Inr (filter (\<lambda>c. comment_task_id c = task_id T) (task_comments db))"
      by (simp add: resolve_taskComments_def to_pk_def)
  }
  {
    assume "py_int taskId = None"
    then show "resolve_taskComments db taskId s = Inl ValueError"
      by (simp add: resolve_taskComments_def to_pk_def)
  }
qed

theorem resolve_taskComments_soft_empty_witness:
  "wf_db sample_db \<and> py_int ''999'' = Some 999 \<and> py_int ''1'' = Some 1 \<and>
   999 \<notin> set (map task_id (tasks sample_db)) \<and>
   resolve_taskComments sample_db ''999'' ''acme'' = Inr [] \<and>
   mk_task 1 1 ''design'' ''DONE'' \<in> set (tasks sample_db) \<and>
   task_org_slug sample_db (mk_task 1 1 ''design'' ''DONE'') = Some ''acme'' \<and>
   resolve_taskComments sample_db ''1'' ''acme'' = Inr [sample_comment] \<and>
   py_int ''abc'' = None \<and>
   resolve_taskComments sample_db ''abc'' ''globex'' = Inl ValueError"
proof -
  have a: "\<forall>T \<in> set (tasks sample_db). task_id T = 999 \<longrightarrow> task_org_slug sample_db T \<noteq> Some ''acme''"
    by (simp add: sample_db_def mk_task_def)
  have b: "mk_task 1 1 ''design'' ''DONE'' \<in> set (tasks sample_db)"
    by (simp add: sample_db_def)
  have c: "task_org_slug sample_db (mk_task 1 1 ''design'' ''DONE'') = Some ''acme''"
    by (simp add: task_org_slug_def task_project_def project_organization_def sample_db_def
        acme_def globex_def launch_def relaunch_def mk_task_def)
  have d: "py_int ''1'' = Some (task_id (mk_task 1 1 ''design'' ''DONE''))"
    by (simp add: mk_task_def py_int_examples)
  have e: "filter (\<lambda>c. comment_task_id c = task_id (mk_task 1 1 ''design'' ''DONE''))
             (task_comments sample_db) = [sample_comment]"
    by (simp add: sample_db_def sample_comment_def mk_task_def)
  from resolve_taskComments_soft_empty [OF wf_db_sample, of "''999''" 999 "''acme''"]
    py_int_examples(4) a
  have "resolve_taskComments sample_db ''999'' ''acme'' = Inr []" by blast
  moreover from resolve_taskComments_soft_empty [OF wf_db_sample, of "''1''" 1 "''acme''"] b c d
  have "resolve_taskComments sample_db ''1'' ''acme'' =
      Inr (filter (\<lambda>c. comment_task_id c = task_id (mk_task 1 1 ''design'' ''DONE''))
             (task_comments sample_db))" by blast
  moreover from resolve_taskComments_soft_empty [OF wf_db_sample, of "''abc''" 0 "''globex''"]
    py_int_examples(6)
  have "resolve_taskComments sample_db ''abc'' ''globex'' = Inl ValueError" by blast
  moreover have "999 \<notin> set (map task_id (tasks sample_db))"
    by (simp add: sample_db_def mk_task_def)
  ultimately show ?thesis using wf_db_sample py_int_examples b c by (simp add: e)
qed

text \<open>
  Claim C7.  For a stored task scoped by its organization's slug, \<^verbatim>\<open>updateTask\<close> with only
  \<^verbatim>\<open>status\<close> supplied stores and returns the task with the new status and every other field
  as before; all other rows stay as they were.  In general each field takes the supplied
  value when one is supplied and keeps its prior value otherwise.
\<close>

theorem UpdateTask_partial_update:
  assumes "wf_db db" and "T \<in> set (tasks db)" and "task_org_slug db T = Some s"
    and "py_int ident = Some (task_id T)"
  shows "UpdateTask_mutate db ident s None None (Some v) None None =
           (Inr (T\<lparr>task_status := v\<rparr>),
            db\<lparr>tasks := map (\<lambda>t. if task_id t = task_id T then T\<lparr>task_status := v\<rparr> else t)
                             (tasks db)\<rparr>) \<and>
         (\<exists>T'. UpdateTask_mutate db ident s title description status assigneeEmail dueDate =
                  (Inr T',
                   db\<lparr>tasks := map (\<lambda>t. if task_id t = task_id T then T' else t) (tasks db)\<rparr>) \<and>
                task_id T' = task_id T \<and> task_project_id T' = task_project_id T \<and>
                task_title T' = (case title of None \<Rightarrow> task_title T | Some x \<Rightarrow> x) \<and>
                task_description T' =
                  (case description of None \<Rightarrow> task_description T | Some x \<Rightarrow> x) \<and>
                task_status T' = (case status of None \<Rightarrow> task_status T | Some x \<Rightarrow> x) \<and>
                task_assignee_email T' =
                  (case assigneeEmail of None \<Rightarrow> task_assignee_email T | Some x \<Rightarrow> x) \<and>
                task_due_date T' = (case dueDate of None \<Rightarrow> task_due_date T | Some x \<Rightarrow> Some x))"
proof -
  from assms(1) have ids: "distinct (map org_id (organizations db))"
    and pids: "distinct (map project_id (projects db))"
    and tids: "distinct (map task_id (tasks db))" by (simp_all add: wf_db_def)
  from assms(3) have "project_organization_slug_is db s T"
    by (simp add: project_organization_slug_is_navigation [OF ids pids])
  with objects_get_unique [OF tids assms(2), of "project_organization_slug_is db s" Task]
  have get: "objects_get Task
               (\<lambda>t. task_id t = task_id T \<and> project_organization_slug_is db s t) (tasks db) = Inr T"
    by simp
  have pk: "to_pk ident = Inr (task_id T)" using assms(4) by (simp add: to_pk_def)
  show ?thesis
    by (simp add: UpdateTask_mutate_def pk get assign_if_given_def Let_def split: option.split)
qed

theorem UpdateTask_partial_update_witness:
  "wf_db sample_db \<and> mk_task 3 1 ''test'' ''IN_PROGRESS'' \<in> set (tasks sample_db) \<and>
   task_org_slug sample_db (mk_task 3 1 ''test'' ''IN_PROGRESS'') = Some ''acme'' \<and>
   py_int ''3'' = Some (task_id (mk_task 3 1 ''test'' ''IN_PROGRESS'')) \<and>
   fst (UpdateTask_mutate sample_db ''3'' ''acme'' None None (Some ''DONE'') None None) =
     Inr (mk_task 3 1 ''test'' ''DONE'') \<and>
   tasks (snd (UpdateTask_mutate sample_db ''3'' ''acme'' None None (Some ''DONE'') None None)) =
     [mk_task 1 1 ''design'' ''DONE'', mk_task 2 1 ''build'' ''DONE'',
      mk_task 3 1 ''test'' ''DONE'', mk_task 4 1 ''ship'' ''TODO'',
      mk_task 5 2 ''plan'' ''DONE'']"
proof -
  have b: "mk_task 3 1 ''test'' ''IN_PROGRESS'' \<in> set (tasks sample_db)"
    by (simp add: sample_db_def)
  have c: "task_org_slug sample_db (mk_task 3 1 ''test'' ''IN_PROGRESS'') = Some ''acme''"
    by (simp add: task_org_slug_def task_project_def project_organization_def sample_db_def
        acme_def globex_def launch_def relaunch_def mk_task_def)
  have d: "py_int ''3'' = Some (task_id (mk_task 3 1 ''test'' ''IN_PROGRESS''))"
    by (simp add: py_int_examples mk_task_def)
  from UpdateTask_partial_update [OF wf_db_sample b c d, of "''DONE''" None None None None None]
  have "UpdateTask_mutate sample_db ''3'' ''acme'' None None (Some ''DONE'') None None =
      (Inr ((mk_task 3 1 ''test'' ''IN_PROGRESS'')\<lparr>task_status := ''DONE''\<rparr>),
       sample_db\<lparr>tasks := map (\<lambda>t. if task_id t = task_id (mk_task 3 1 ''test'' ''IN_PROGRESS'')
                                    then (mk_task 3 1 ''test'' ''IN_PROGRESS'')\<lparr>task_status := ''DONE''\<rparr>
                                    else t) (tasks sample_db)\<rparr>)"
    by (rule conjunct1)
  then show ?thesis using wf_db_sample b c d
    by (simp add: sample_db_def mk_task_def)
qed

section \<open>Completion rates\<close>

lemma completion_rate_code_spec:
  "0 < t \<Longrightarrow>
   py_round (py_float_mul (round_binary64 (of_nat c / of_nat t)) 100) 2 =
   completion_rate_spec c t"
  by (simp add: completion_rate_spec_def)

lemma completion_rate_spec_range:
  assumes "c \<le> t"
  shows "0 \<le> completion_rate_spec c t \<and> completion_rate_spec c t \<le> 100"
proof (cases "t = 0")
  case True
  then show ?thesis by (simp add: completion_rate_spec_def)
next
  case False
  then have t: "0 < t" by simp
  from completion_rate_bounds [OF assms t] show ?thesis
    by (simp add: completion_rate_code_spec [OF t])
qed

lemma completion_rate_spec_zero: "completion_rate_spec c 0 = 0"
  by (simp add: completion_rate_spec_def)

lemma completion_rate_spec_full: "0 < t \<Longrightarrow> completion_rate_spec t t = 100"
  using completion_rate_all_done [of t] by (simp add: completion_rate_spec_def)

lemma resolve_completionRate_spec:
  "resolve_completionRate db p =
     Inr (completion_rate_spec
            (length (filter (\<lambda>t. task_status t = ''DONE'') (project_tasks db p)))
            (length (project_tasks db p)))"
proof (cases "project_tasks db p = []")
  case True
  then show ?thesis
    by (simp add: resolve_completionRate_def completion_rate_spec_def)
next
  case False
  then have "0 < length (project_tasks db p)" by simp
  then show ?thesis
    by (simp add: resolve_completionRate_def py_truediv_def Let_def completion_rate_code_spec)
qed

lemma resolve_projectStatistics_shape:
  assumes "resolve_projectStatistics db s projectId = Inr (Some st)"
  shows "\<exists>projs. totalProjects st = length projs \<and>
           totalTasks st = length (extend_all_tasks db [] projs) \<and>
           completedTasks st =
             length (filter (\<lambda>t. task_status t = ''DONE'') (extend_all_tasks db [] projs)) \<and>
           activeTasks st =
             length (filter (\<lambda>t. task_status t = ''IN_PROGRESS'') (extend_all_tasks db [] projs)) \<and>
           completionRate st = completion_rate_spec (completedTasks st) (totalTasks st)"
proof -
  have rate: "(if 0 < t
               then (case py_truediv (int c) (int t) of
                       Inl e \<Rightarrow> Inl e
                     | Inr q \<Rightarrow> Inr (py_round (py_float_mul q 100) 2))
               else Inr 0) = Inr (completion_rate_spec c t)" for c t :: nat
    by (simp add: py_truediv_def completion_rate_code_spec completion_rate_spec_zero)
  from assms show ?thesis
    unfolding resolve_projectStatistics_def Let_def rate sum_status_length
    by (auto split: sum.splits if_splits)
qed


lemma truthy_arg_value: "truthy a \<longleftrightarrow> arg_value a \<noteq> []"
  by (simp add: truthy_def arg_value_def split: option.split)

lemma in_scope_projects_code:
  assumes "wf_db db" and "ou \<in> set (organizations db)"
  shows "\<not> truthy projectId \<Longrightarrow>
           filter (\<lambda>p. project_organization_id p = org_id ou) (projects db) =
           in_scope_projects db ou projectId"
    and "py_int (arg_value projectId) = Some n \<Longrightarrow>
           filter (\<lambda>p. project_id p = n)
             (filter (\<lambda>p. project_organization_id p = org_id ou) (projects db)) =
           in_scope_projects db ou projectId"
proof -
  from assms(1) have ids: "distinct (map org_id (organizations db))" by (simp add: wf_db_def)
  note nav = project_organization_eq [OF ids assms(2)]
  show "\<not> truthy projectId \<Longrightarrow>
           filter (\<lambda>p. project_organization_id p = org_id ou) (projects db) =
           in_scope_projects db ou projectId"
    by (simp add: in_scope_projects_def nav)
  show "py_int (arg_value projectId) = Some n \<Longrightarrow>
           filter (\<lambda>p. project_id p = n)
             (filter (\<lambda>p. project_organization_id p = org_id ou) (projects db)) =
           in_scope_projects db ou projectId"
  proof -
    assume n: "py_int (arg_value projectId) = Some n"
    then have "truthy projectId" by (simp add: truthy_arg_value py_int_Some_nonempty)
    with n show ?thesis
      by (auto simp: in_scope_projects_def nav intro: filter_cong)
  qed
qed

lemma in_scope_tasks_count:
  assumes "wf_db db"
  shows "length (filter Q (extend_all_tasks db [] (in_scope_projects db ou projectId))) =
         length (filter Q (in_scope_tasks db ou projectId))"
proof -
  let ?projs = "in_scope_projects db ou projectId"
  from assms have pids: "distinct (map project_id (projects db))" by (simp add: wf_db_def)
  have sub: "set ?projs \<subseteq> set (projects db)" by (auto simp: in_scope_projects_def)
  have dist: "distinct (map project_id ?projs)"
    unfolding in_scope_projects_def using pids by (rule distinct_map_filter)
  have "(\<exists>p \<in> set ?projs. task_project db t = Some p) \<longleftrightarrow>
        task_project_id t \<in> project_id ` set ?projs" for t
  proof
    assume "\<exists>p \<in> set ?projs. task_project db t = Some p"
    then obtain p where p: "p \<in> set ?projs" "task_project db t = Some p" by blast
    from p(1) sub have "p \<in> set (projects db)" by blast
    from p(2) task_project_eq [OF pids this] have "task_project_id t = project_id p" by simp
    with p(1) show "task_project_id t \<in> project_id ` set ?projs" by simp
  next
    assume "task_project_id t \<in> project_id ` set ?projs"
    then obtain p where p: "p \<in> set ?projs" "task_project_id t = project_id p" by auto
    from p(1) sub have "p \<in> set (projects db)" by blast
    from p(2) task_project_eq [OF pids this] have "task_project db t = Some p" by simp
    with p(1) show "\<exists>p \<in> set ?projs. task_project db t = Some p" by blast
  qed
  then have "length (filter Q (in_scope_tasks db ou projectId)) =
        length (filter (\<lambda>t. Q t \<and> task_project_id t \<in> project_id ` set ?projs) (tasks db))"
    by (simp add: in_scope_tasks_def conj_commute)
  with length_filter_project_tasks [OF dist, of Q db] show ?thesis
    by (simp add: extend_all_tasks_concat)
qed

lemma resolve_projectStatistics_in_scope:
  assumes "wf_db db" and "ou \<in> set (organizations db)"
    and "truthy projectId \<longrightarrow> py_int (arg_value projectId) \<noteq> None"
  shows "resolve_projectStatistics db (org_slug ou) projectId =
           Inr (Some \<lparr>totalProjects = length (in_scope_projects db ou projectId),
                      totalTasks = length (in_scope_tasks db ou projectId),
                      completedTasks =
                        length (filter (\<lambda>t. task_status t = ''DONE'')
                                  (in_scope_tasks db ou projectId)),
                      activeTasks =
                        length (filter (\<lambda>t. task_status t = ''IN_PROGRESS'')
                                  (in_scope_tasks db ou projectId)),
                      completionRate =
                        completion_rate_spec
                          (length (filter (\<lambda>t. task_status t = ''DONE'')
                                     (in_scope_tasks db ou projectId)))
                          (length (in_scope_tasks db ou projectId))\<rparr>)"
proof -
  from assms(1) have slugs: "distinct (map org_slug (organizations db))"
    by (simp add: wf_db_def)
  have get: "objects_get Organization (\<lambda>y. org_slug y = org_slug ou) (organizations db) = Inr ou"
    using slugs assms(2) by (rule objects_get_unique_key)
  have rate: "(if 0 < t
               then (case py_truediv (int c) (int t) of
                       Inl e \<Rightarrow> Inl e
                     | Inr q \<Rightarrow> Inr (py_round (py_float_mul q 100) 2))
               else Inr 0) = Inr (completion_rate_spec c t)" for c t :: nat
    by (simp add: py_truediv_def completion_rate_code_spec completion_rate_spec_zero)
  have total: "length (extend_all_tasks db [] (in_scope_projects db ou projectId)) =
               length (in_scope_tasks db ou projectId)"
    using in_scope_tasks_count [OF assms(1), of "\<lambda>_. True" ou projectId] by simp
  note counts = in_scope_tasks_count [OF assms(1)]
  show ?thesis
  proof (cases "truthy projectId")
    case False
    with in_scope_projects_code(1) [OF assms(1,2) False] show ?thesis
      unfolding resolve_projectStatistics_def get Let_def rate sum_status_length
      by (simp add: total counts)
  next
    case True
    with assms(3) obtain n where n: "py_int (arg_value projectId) = Some n" by auto
    with in_scope_projects_code(2) [OF assms(1,2) n] True show ?thesis
      unfolding resolve_projectStatistics_def get Let_def rate sum_status_length
      by (simp add: total counts to_pk_def)
  qed
qed


lemma round_half_even_error: "\<bar>of_int (round_half_even x) - x\<bar> \<le> 1 / 2"
proof -
  have a: "rat_of_int \<lfloor>x\<rfloor> \<le> x" and b: "x < rat_of_int \<lfloor>x\<rfloor> + 1" by linarith+
  consider (lo) "x - of_int \<lfloor>x\<rfloor> < 1 / 2" | (hi) "1 / 2 < x - of_int \<lfloor>x\<rfloor>"
    | (tie) "x - of_int \<lfloor>x\<rfloor> = 1 / 2" by linarith
  then show ?thesis
  proof cases
    case lo
    then have "round_half_even x = \<lfloor>x\<rfloor>" by (simp add: round_half_even_def Let_def)
    moreover have "\<bar>rat_of_int \<lfloor>x\<rfloor> - x\<bar> \<le> 1 / 2" using lo a by linarith
    ultimately show ?thesis by simp
  next
    case hi
    then have "round_half_even x = \<lfloor>x\<rfloor> + 1" by (simp add: round_half_even_def Let_def)
    moreover have "\<bar>rat_of_int \<lfloor>x\<rfloor> + 1 - x\<bar> \<le> 1 / 2" using hi b by linarith
    ultimately show ?thesis by simp
  next
    case tie
    have "\<bar>rat_of_int \<lfloor>x\<rfloor> - x\<bar> \<le> 1 / 2" "\<bar>rat_of_int \<lfloor>x\<rfloor> + 1 - x\<bar> \<le> 1 / 2"
      using tie by linarith+
    with round_half_even_cases [of x] show ?thesis by auto
  qed
qed

lemma round_binary64_error:
  assumes "0 \<le> x" and "x \<le> power_int 2 k" and "- 1022 \<le> k"
  shows "\<bar>round_binary64 x - x\<bar> \<le> power_int 2 (k - 53)"
proof (cases "x = 0")
  case True
  then show ?thesis by (simp add: round_binary64_def)
next
  case False
  with assms have pos: "0 < x" by simp
  define e where "e = max (float_exponent \<bar>x\<bar>) (- 1022)"
  define ulp :: rat where "ulp = power_int 2 (e - 52)"
  have ulp: "0 < ulp" by (simp add: ulp_def)
  have rb: "round_binary64 x = of_int (round_half_even (x / ulp)) * ulp"
    using pos by (simp add: round_binary64_def Let_def ulp_def e_def)
  have "float_exponent x \<le> k"
  proof (rule ccontr)
    assume "\<not> float_exponent x \<le> k"
    then have "k < float_exponent x" by simp
    then have "power_int (2::rat) k < power_int 2 (float_exponent x)"
      by (rule power_int_strict_increasing) simp
    also have "\<dots> \<le> x" using pos by (rule float_exponent_lower)
    finally show False using assms(2) by simp
  qed
  with pos assms(3) have ek: "e \<le> k" by (simp add: e_def)
  have half: "ulp / 2 = power_int 2 (e - 53)"
  proof -
    have eq: "e - 53 = (e - 52) - 1" by simp
    have "power_int (2::rat) (e - 53) = power_int 2 (e - 52) / power_int 2 1"
      by (subst eq) (rule power_int_diff, simp)
    then show ?thesis by (simp add: ulp_def)
  qed
  have "round_binary64 x - x = (of_int (round_half_even (x / ulp)) - x / ulp) * ulp"
    using ulp by (simp add: rb field_simps)
  then have "\<bar>round_binary64 x - x\<bar> = \<bar>of_int (round_half_even (x / ulp)) - x / ulp\<bar> * ulp"
    using ulp by (simp add: abs_mult)
  also have "\<dots> \<le> (1 / 2) * ulp"
    using round_half_even_error [of "x / ulp"] ulp by (intro mult_right_mono) simp_all
  also have "\<dots> = power_int 2 (e - 53)" using half by simp
  also have "\<dots> \<le> power_int 2 (k - 53)"
    using ek by (intro power_int_increasing) simp_all
  finally show ?thesis .
qed

lemma completion_rate_spec_two_decimals:
  assumes "c \<le> t" and "0 < t"
  shows "\<exists>k. completion_rate_spec c t = round_binary64 (of_int k / 100) \<and>
             \<bar>rat_of_int k - 10000 * of_nat c / of_nat t\<bar> \<le> 1 / 2 + 1 / 2 ^ 38 \<and>
             (t \<le> 2 ^ 37 \<longrightarrow> \<bar>rat_of_int k - 10000 * of_nat c / of_nat t\<bar> \<le> 1 / 2)"
proof -
  define x :: rat where "x = of_nat c / of_nat t"
  define q where "q = round_binary64 x"
  define y where "y = round_binary64 (q * 100)"
  define r where "r = round_half_even (y * 10 ^ 2)"
  define v :: rat where "v = 10000 * x"
  have spec: "completion_rate_spec c t = round_binary64 (of_int r / 100)"
    using assms(2) by (simp add: completion_rate_spec_def py_float_mul_def py_round_def
        r_def y_def q_def x_def)
  have x01: "0 \<le> x" "x \<le> of_int 1" using assms by (simp_all add: x_def)
  have q0: "0 \<le> q" unfolding q_def using x01(1) by (rule round_binary64_nonneg)
  have q1: "q \<le> 1" unfolding q_def using round_binary64_le_int [OF x01] by simp
  have "\<bar>q - x\<bar> \<le> power_int 2 (0 - 53)"
    unfolding q_def using x01 by (intro round_binary64_error) simp_all
  then have eq: "\<bar>q - x\<bar> \<le> 1 / 9007199254740992"
    by (simp add: power_int_def inverse_eq_divide power_one_over)
  have q100: "0 \<le> q * 100" "q * 100 \<le> of_int 100" using q0 q1 by simp_all
  have "\<bar>y - q * 100\<bar> \<le> power_int 2 (7 - 53)"
    unfolding y_def using q100 by (intro round_binary64_error) simp_all
  then have ey: "\<bar>y - q * 100\<bar> \<le> 1 / 70368744177664"
    by (simp add: power_int_def inverse_eq_divide power_one_over)
  have er: "\<bar>of_int r - y * 100\<bar> \<le> 1 / 2"
    using round_half_even_error [of "y * 10 ^ 2"] by (simp add: r_def)
  have noise: "\<bar>y * 100 - v\<bar> < 1 / 274877906944"
    unfolding v_def using eq ey by linarith
  have approx: "\<bar>of_int r - v\<bar> \<le> 1 / 2 + 1 / 274877906944"
    using er noise by linarith
  have exact: "\<bar>of_int r - v\<bar> \<le> 1 / 2" if small: "t \<le> 2 ^ 37"
  proof -
    have tpos: "(0::rat) < of_nat t" using assms(2) by simp
    from small have "rat_of_nat t \<le> rat_of_nat (2 ^ 37)" by (simp only: of_nat_le_iff)
    then have t38: "2 * rat_of_nat t \<le> 274877906944" by simp
    have vt: "v * of_nat t = 10000 * of_nat c"
      using tpos by (simp add: v_def x_def)
    have upper: "of_int r - v \<le> 1 / 2"
    proof (rule ccontr)
      assume "\<not> of_int r - v \<le> 1 / 2"
      then have gap: "0 < of_int r - 1 / 2 - v" by simp
      define N :: int where "N = (2 * r - 1) * int t - 20000 * int c"
      have "rat_of_int N = (of_int r - 1 / 2 - v) * (2 * of_nat t)"
        using vt by (simp add: N_def algebra_simps)
      moreover from gap tpos have "0 < (of_int r - 1 / 2 - v) * (2 * of_nat t)" by simp
      ultimately have "0 < rat_of_int N" by simp
      then have "1 \<le> N" by simp
      then have "rat_of_int 1 \<le> rat_of_int N" by (simp only: of_int_le_iff)
      then have one: "1 \<le> (of_int r - 1 / 2 - v) * (2 * of_nat t)"
        using \<open>rat_of_int N = (of_int r - 1 / 2 - v) * (2 * of_nat t)\<close> by simp
      have lt: "of_int r - 1 / 2 - v < 1 / 274877906944" using er noise by linarith
      have "(of_int r - 1 / 2 - v) * (2 * of_nat t) \<le> (of_int r - 1 / 2 - v) * 274877906944"
        using gap t38 by (intro mult_left_mono) simp_all
      also have "\<dots> < 1" using lt by simp
      finally show False using one by simp
    qed
    have lower: "v - of_int r \<le> 1 / 2"
    proof (rule ccontr)
      assume "\<not> v - of_int r \<le> 1 / 2"
      then have gap: "0 < v - of_int r - 1 / 2" by simp
      define N :: int where "N = 20000 * int c - (2 * r + 1) * int t"
      have "rat_of_int N = (v - of_int r - 1 / 2) * (2 * of_nat t)"
        using vt by (simp add: N_def algebra_simps)
      moreover from gap tpos have "0 < (v - of_int r - 1 / 2) * (2 * of_nat t)" by simp
      ultimately have "0 < rat_of_int N" by simp
      then have "1 \<le> N" by simp
      then have "rat_of_int 1 \<le> rat_of_int N" by (simp only: of_int_le_iff)
      then have one: "1 \<le> (v - of_int r - 1 / 2) * (2 * of_nat t)"
        using \<open>rat_of_int N = (v - of_int r - 1 / 2) * (2 * of_nat t)\<close> by simp
      have lt: "v - of_int r - 1 / 2 < 1 / 274877906944" using er noise by linarith
      have "(v - of_int r - 1 / 2) * (2 * of_nat t) \<le> (v - of_int r - 1 / 2) * 274877906944"
        using gap t38 by (intro mult_left_mono) simp_all
      also have "\<dots> < 1" using lt by simp
      finally show False using one by simp
    qed
    from upper lower show ?thesis by linarith
  qed
  have v: "v = 10000 * of_nat c / of_nat t" by (simp add: v_def x_def)
  from spec approx exact show ?thesis unfolding v by (intro exI [of _ r]) simp
qed

lemma all_done_count:
  "\<forall>t \<in> set ts. task_status t = ''DONE'' \<Longrightarrow>
   length (filter (\<lambda>t. task_status t = ''DONE'') ts) = length ts"
  by (induction ts) simp_all

text \<open>
  Claim C3.  Both places that compute a completion rate, the \<^verbatim>\<open>completionRate\<close> field of a
  project and the \<^verbatim>\<open>projectStatistics\<close> query, return \<open>0.0\<close> when the total number of tasks is
  0, and otherwise the number of tasks with status \<^verbatim>\<open>DONE\<close> over the total, times 100,
  rounded to 2 decimal places: the result is the float nearest to \<open>k / 100\<close>, the float that
  the decimal with the digits of \<open>k\<close> denotes, where \<open>k\<close> is an integer nearest to the exact
  quotient times 10000.  This holds for up to \<open>2 ^ 37\<close> tasks; beyond that, \<open>k\<close> is within
  \<open>2 ^ -38\<close> of being nearest.  The counts of the statistics record are those of the tasks
  in scope.
\<close>

theorem completion_rate_rounded:
  "(project_tasks db p = [] \<longrightarrow> resolve_completionRate db p = Inr 0) \<and>
   (project_tasks db p \<noteq> [] \<longrightarrow>
      (\<exists>k. resolve_completionRate db p = Inr (round_binary64 (of_int k / 100)) \<and>
           \<bar>rat_of_int k -
              10000 * of_nat (length (filter (\<lambda>t. task_status t = ''DONE'') (project_tasks db p)))
                / of_nat (length (project_tasks db p))\<bar> \<le> 1 / 2 + 1 / 2 ^ 38 \<and>
           (length (project_tasks db p) \<le> 2 ^ 37 \<longrightarrow>
              \<bar>rat_of_int k -
                 10000 * of_nat (length (filter (\<lambda>t. task_status t = ''DONE'') (project_tasks db p)))
                   / of_nat (length (project_tasks db p))\<bar> \<le> 1 / 2))) \<and>
   (\<forall>st. resolve_projectStatistics db s projectId = Inr (Some st) \<longrightarrow>
      (totalTasks st = 0 \<longrightarrow> completionRate st = 0) \<and>
      (0 < totalTasks st \<longrightarrow>
         (\<exists>k. completionRate st = round_binary64 (of_int k / 100) \<and>
              \<bar>rat_of_int k - 10000 * of_nat (completedTasks st) / of_nat (totalTasks st)\<bar>
                \<le> 1 / 2 + 1 / 2 ^ 38 \<and>
              (totalTasks st \<le> 2 ^ 37 \<longrightarrow>
                 \<bar>rat_of_int k - 10000 * of_nat (completedTasks st) / of_nat (totalTasks st)\<bar>
                   \<le> 1 / 2)))) \<and>
   (wf_db db \<and> ou \<in> set (organizations db) \<and>
    (truthy projectId \<longrightarrow> py_int (arg_value projectId) \<noteq> None) \<longrightarrow>
      (\<exists>st. resolve_projectStatistics db (org_slug ou) projectId = Inr (Some st) \<and>
            totalTasks st = length (in_scope_tasks db ou projectId) \<and>
            completedTasks st =
              length (filter (\<lambda>t. task_status t = ''DONE'') (in_scope_tasks db ou projectId))))"
proof (intro conjI allI impI)
  let ?ts = "project_tasks db p"
  let ?c = "length (filter (\<lambda>t. task_status t = ''DONE'') ?ts)"
  have code: "resolve_completionRate db p = Inr (completion_rate_spec ?c (length ?ts))"
    by (rule resolve_completionRate_spec)
  show "resolve_completionRate db p = Inr 0" if "?ts = []"
    using that code by (simp add: completion_rate_spec_zero)
  show "\<exists>k. resolve_completionRate db p = Inr (round_binary64 (of_int k / 100)) \<and>
           \<bar>rat_of_int k - 10000 * of_nat ?c / of_nat (length ?ts)\<bar> \<le> 1 / 2 + 1 / 2 ^ 38 \<and>
           (length ?ts \<le> 2 ^ 37 \<longrightarrow>
              \<bar>rat_of_int k - 10000 * of_nat ?c / of_nat (length ?ts)\<bar> \<le> 1 / 2)"
    if "?ts \<noteq> []"
  proof -
    from that have "0 < length ?ts" by simp
    moreover have "?c \<le> length ?ts" by simp
    ultimately show ?thesis
      using completion_rate_spec_two_decimals [of ?c "length ?ts"] unfolding code by blast
  qed
next
  fix st assume "resolve_projectStatistics db s projectId = Inr (Some st)"
  from resolve_projectStatistics_shape [OF this]
  obtain projs where tot: "totalTasks st = length (extend_all_tasks db [] projs)"
    and com: "completedTasks st =
             length (filter (\<lambda>t. task_status t = ''DONE'') (extend_all_tasks db [] projs))"
    and rate: "completionRate st = completion_rate_spec (completedTasks st) (totalTasks st)"
    by blast
  from tot com have le: "completedTasks st \<le> totalTasks st" by simp
  show "completionRate st = 0" if "totalTasks st = 0"
    using that rate by (simp add: completion_rate_spec_zero)
  show "\<exists>k. completionRate st = round_binary64 (of_int k / 100) \<and>
           \<bar>rat_of_int k - 10000 * of_nat (completedTasks st) / of_nat (totalTasks st)\<bar>
             \<le> 1 / 2 + 1 / 2 ^ 38 \<and>
           (totalTasks st \<le> 2 ^ 37 \<longrightarrow>
              \<bar>rat_of_int k - 10000 * of_nat (completedTasks st) / of_nat (totalTasks st)\<bar>
                \<le> 1 / 2)"
    if "0 < totalTasks st"
    using completion_rate_spec_two_decimals [OF le that] unfolding rate by blast
next
  assume "wf_db db \<and> ou \<in> set (organizations db) \<and>
          (truthy projectId \<longrightarrow> py_int (arg_value projectId) \<noteq> None)"
  then have "wf_db db" "ou \<in> set (organizations db)"
    "truthy projectId \<longrightarrow> py_int (arg_value projectId) \<noteq> None" by simp_all
  from resolve_projectStatistics_in_scope [OF this]
  show "\<exists>st. resolve_projectStatistics db (org_slug ou) projectId = Inr (Some st) \<and>
            totalTasks st = length (in_scope_tasks db ou projectId) \<and>
            completedTasks st =
              length (filter (\<lambda>t. task_status t = ''DONE'') (in_scope_tasks db ou projectId))"
    by simp
qed

lemma completion_rate_spec_examples:
  "completion_rate_spec 2 4 = 50" "completion_rate_spec 1 1 = 100"
  by code_simp+

lemma sample_project_tasks:
  "project_tasks sample_db launch =
     [mk_task 1 1 ''design'' ''DONE'', mk_task 2 1 ''build'' ''DONE'',
      mk_task 3 1 ''test'' ''IN_PROGRESS'', mk_task 4 1 ''ship'' ''TODO'']"
  "project_tasks sample_db relaunch = [mk_task 5 2 ''plan'' ''DONE'']"
  by (simp_all add: project_tasks_def sample_db_def launch_def relaunch_def mk_task_def)

lemma sample_statistics:
  "resolve_projectStatistics sample_db ''acme'' None =
     Inr (Some \<lparr>totalProjects = 1, totalTasks = 4, completedTasks = 2, activeTasks = 1,
                completionRate = 50\<rparr>)"
  "resolve_projectStatistics sample_db ''globex'' None =
     Inr (Some \<lparr>totalProjects = 1, totalTasks = 1, completedTasks = 1, activeTasks = 0,
                completionRate = 100\<rparr>)"
  "resolve_projectStatistics sample_db ''acme'' (Some ''2'') =
     Inr (Some \<lparr>totalProjects = 0, totalTasks = 0, completedTasks = 0, activeTasks = 0,
                completionRate = 0\<rparr>)"
  by code_simp+

lemma thirds_project_tasks:
  "project_tasks thirds_db launch \<noteq> []"
  "length (project_tasks thirds_db launch) = 3"
  "length (filter (\<lambda>t. task_status t = ''DONE'') (project_tasks thirds_db launch)) = 1"
  by (simp_all add: project_tasks_def thirds_db_def sample_db_def launch_def mk_task_def)

theorem completion_rate_rounded_witness:
  "project_tasks thirds_db launch \<noteq> [] \<and>
   length (project_tasks thirds_db launch) = 3 \<and>
   resolve_completionRate thirds_db launch = Inr (round_binary64 (3333 / 100)) \<and>
   project_tasks sample_db (launch\<lparr>project_id := 7\<rparr>) = [] \<and>
   resolve_completionRate sample_db (launch\<lparr>project_id := 7\<rparr>) = Inr 0 \<and>
   wf_db sample_db \<and> acme \<in> set (organizations sample_db) \<and>
   resolve_projectStatistics sample_db ''acme'' None =
     Inr (Some \<lparr>totalProjects = 1, totalTasks = 4, completedTasks = 2, activeTasks = 1,
                completionRate = 50\<rparr>) \<and>
   length (in_scope_tasks sample_db acme None) = 4 \<and>
   length (filter (\<lambda>t. task_status t = ''DONE'') (in_scope_tasks sample_db acme None)) = 2"
proof -
  note thirds = completion_rate_rounded [of thirds_db launch "''acme''" None acme]
  note sample = completion_rate_rounded [of sample_db "launch\<lparr>project_id := 7\<rparr>" "''acme''" None acme]
  have acme: "acme \<in> set (organizations sample_db)" by (simp add: sample_db_def)
  have slug: "org_slug acme = ''acme''" by (simp add: acme_def)
  have small: "length (project_tasks thirds_db launch) \<le> 2 ^ 37"
    by (simp only: thirds_project_tasks) simp
  from thirds thirds_project_tasks(1) small
  obtain k where k: "resolve_completionRate thirds_db launch = Inr (round_binary64 (of_int k / 100))"
    and near: "\<bar>rat_of_int k -
        10000 * of_nat (length (filter (\<lambda>t. task_status t = ''DONE'')
                                  (project_tasks thirds_db launch)))
          / of_nat (length (project_tasks thirds_db launch))\<bar> \<le> 1 / 2"
    by blast
  from near have "\<bar>rat_of_int k - 10000 / 3\<bar> \<le> 1 / 2"
    by (simp add: thirds_project_tasks)
  then have "rat_of_int 3332 < rat_of_int k" "rat_of_int k < rat_of_int 3334" by linarith+
  then have "3332 < k" "k < 3334" by (simp_all only: of_int_less_iff)
  then have "k = 3333" by linarith
  with k have a: "resolve_completionRate thirds_db launch = Inr (round_binary64 (3333 / 100))"
    by simp
  have empty: "project_tasks sample_db (launch\<lparr>project_id := 7\<rparr>) = []"
    by (simp add: project_tasks_def sample_db_def launch_def mk_task_def)
  with sample have b: "resolve_completionRate sample_db (launch\<lparr>project_id := 7\<rparr>) = Inr 0"
    by blast
  from sample wf_db_sample acme
  have "\<exists>st. resolve_projectStatistics sample_db ''acme'' None = Inr (Some st) \<and>
          totalTasks st = length (in_scope_tasks sample_db acme None) \<and>
          completedTasks st =
            length (filter (\<lambda>t. task_status t = ''DONE'') (in_scope_tasks sample_db acme None))"
    by (simp add: truthy_def slug)
  then have c: "length (in_scope_tasks sample_db acme None) = 4"
    "length (filter (\<lambda>t. task_status t = ''DONE'') (in_scope_tasks sample_db acme None)) = 2"
    by (auto simp: sample_statistics)
  from a b c show ?thesis
    using thirds_project_tasks(1,2) empty wf_db_sample acme sample_statistics(1) by simp
qed

text \<open>
  Claim C9.  The completion rate of a project and of a statistics record lies in
  \<open>[0, 100]\<close>; it is \<open>0.0\<close> when the task set is empty, and \<open>100.0\<close> when the task set is not
  empty and every task in it has status \<^verbatim>\<open>DONE\<close>.
\<close>

theorem completion_rate_range:
  "(\<exists>r. resolve_completionRate db p = Inr r \<and> 0 \<le> r \<and> r \<le> 100 \<and>
        (project_tasks db p = [] \<longrightarrow> r = 0) \<and>
        (project_tasks db p \<noteq> [] \<and> (\<forall>t \<in> set (project_tasks db p). task_status t = ''DONE'')
           \<longrightarrow> r = 100)) \<and>
   (\<forall>st. resolve_projectStatistics db s projectId = Inr (Some st) \<longrightarrow>
      0 \<le> completionRate st \<and> completionRate st \<le> 100 \<and>
      (totalTasks st = 0 \<longrightarrow> completionRate st = 0) \<and>
      (0 < totalTasks st \<and> completedTasks st = totalTasks st \<longrightarrow> completionRate st = 100)) \<and>
   (wf_db db \<and> ou \<in> set (organizations db) \<and>
    (truthy projectId \<longrightarrow> py_int (arg_value projectId) \<noteq> None) \<longrightarrow>
      (\<exists>st. resolve_projectStatistics db (org_slug ou) projectId = Inr (Some st) \<and>
            0 \<le> completionRate st \<and> completionRate st \<le> 100 \<and>
            (in_scope_tasks db ou projectId = [] \<longrightarrow> completionRate st = 0) \<and>
            (in_scope_tasks db ou projectId \<noteq> [] \<and>
             (\<forall>t \<in> set (in_scope_tasks db ou projectId). task_status t = ''DONE'')
               \<longrightarrow> completionRate st = 100)))"
proof (intro conjI allI impI)
  let ?ts = "project_tasks db p"
  let ?r = "completion_rate_spec (length (filter (\<lambda>t. task_status t = ''DONE'') ?ts)) (length ?ts)"
  have "resolve_completionRate db p = Inr ?r" by (rule resolve_completionRate_spec)
  moreover have "0 \<le> ?r \<and> ?r \<le> 100" by (rule completion_rate_spec_range) simp
  moreover have "?ts = [] \<longrightarrow> ?r = 0" by (simp add: completion_rate_spec_zero)
  moreover have "?ts \<noteq> [] \<and> (\<forall>t \<in> set ?ts. task_status t = ''DONE'') \<longrightarrow> ?r = 100"
    by (simp add: all_done_count completion_rate_spec_full)
  ultimately show "\<exists>r. resolve_completionRate db p = Inr r \<and> 0 \<le> r \<and> r \<le> 100 \<and>
        (?ts = [] \<longrightarrow> r = 0) \<and>
        (?ts \<noteq> [] \<and> (\<forall>t \<in> set ?ts. task_status t = ''DONE'') \<longrightarrow> r = 100)"
    by blast
next
  fix st assume "resolve_projectStatistics db s projectId = Inr (Some st)"
  from resolve_projectStatistics_shape [OF this]
  obtain projs where tot: "totalTasks st = length (extend_all_tasks db [] projs)"
    and com: "completedTasks st =
             length (filter (\<lambda>t. task_status t = ''DONE'') (extend_all_tasks db [] projs))"
    and rate: "completionRate st = completion_rate_spec (completedTasks st) (totalTasks st)"
    by blast
  from tot com have le: "completedTasks st \<le> totalTasks st" by simp
  from completion_rate_spec_range [OF le] rate
  show "0 \<le> completionRate st" "completionRate st \<le> 100" by simp_all
  show "completionRate st = 0" if "totalTasks st = 0"
    using that rate by (simp add: completion_rate_spec_zero)
  show "completionRate st = 100" if "0 < totalTasks st \<and> completedTasks st = totalTasks st"
    using that rate by (simp add: completion_rate_spec_full)
next
  assume "wf_db db \<and> ou \<in> set (organizations db) \<and>
          (truthy projectId \<longrightarrow> py_int (arg_value projectId) \<noteq> None)"
  then have "wf_db db" "ou \<in> set (organizations db)"
    "truthy projectId \<longrightarrow> py_int (arg_value projectId) \<noteq> None" by simp_all
  note res = resolve_projectStatistics_in_scope [OF this]
  let ?ts = "in_scope_tasks db ou projectId"
  let ?r = "completion_rate_spec (length (filter (\<lambda>t. task_status t = ''DONE'') ?ts)) (length ?ts)"
  have "0 \<le> ?r \<and> ?r \<le> 100" by (rule completion_rate_spec_range) simp
  moreover have "?ts = [] \<longrightarrow> ?r = 0" by (simp add: completion_rate_spec_zero)
  moreover have "?ts \<noteq> [] \<and> (\<forall>t \<in> set ?ts. task_status t = ''DONE'') \<longrightarrow> ?r = 100"
    by (simp add: all_done_count completion_rate_spec_full)
  ultimately show "\<exists>st. resolve_projectStatistics db (org_slug ou) projectId = Inr (Some st) \<and>
            0 \<le> completionRate st \<and> completionRate st \<le> 100 \<and>
            (?ts = [] \<longrightarrow> completionRate st = 0) \<and>
            (?ts \<noteq> [] \<and> (\<forall>t \<in> set ?ts. task_status t = ''DONE'') \<longrightarrow> completionRate st = 100)"
    unfolding res by simp
qed

theorem completion_rate_range_witness:
  "project_tasks sample_db relaunch = [mk_task 5 2 ''plan'' ''DONE''] \<and>
   resolve_completionRate sample_db relaunch = Inr 100 \<and>
   project_tasks sample_db (launch\<lparr>project_id := 7\<rparr>) = [] \<and>
   resolve_completionRate sample_db (launch\<lparr>project_id := 7\<rparr>) = Inr 0 \<and>
   wf_db sample_db \<and> globex \<in> set (organizations sample_db) \<and>
   resolve_projectStatistics sample_db ''globex'' None =
     Inr (Some \<lparr>totalProjects = 1, totalTasks = 1, completedTasks = 1, activeTasks = 0,
                completionRate = 100\<rparr>) \<and>
   resolve_projectStatistics sample_db ''acme'' (Some ''2'') =
     Inr (Some \<lparr>totalProjects = 0, totalTasks = 0, completedTasks = 0, activeTasks = 0,
                completionRate = 0\<rparr>)"
proof -
  have empty: "project_tasks sample_db (launch\<lparr>project_id := 7\<rparr>) = []"
    by (simp add: project_tasks_def sample_db_def launch_def mk_task_def)
  have globex: "globex \<in> set (organizations sample_db)" by (simp add: sample_db_def)
  from completion_rate_range [of sample_db relaunch "''globex''" None globex]
  have "resolve_completionRate sample_db relaunch = Inr 100"
    by (auto simp: sample_project_tasks mk_task_def)
  moreover from completion_rate_range [of sample_db "launch\<lparr>project_id := 7\<rparr>" "''acme''" "Some ''2''" acme]
  have "resolve_completionRate sample_db (launch\<lparr>project_id := 7\<rparr>) = Inr 0"
    by (auto simp: empty)
  ultimately show ?thesis
    using sample_project_tasks(2) empty wf_db_sample globex sample_statistics(2,3) by simp
qed

end
